theory Spec2Isabelle
  imports Complex_Main "HOL-Library.Multiset"
begin

unbundle bit_operations_syntax

section \<open>School-bus route optimizer: a model of \<open>route_optimizer.py\<close>\<close>

text \<open>
  Conventions of the embedding.
  \<^item> Python floats are idealised as \<^typ>\<open>real\<close>; Python's unbounded integers are \<^typ>\<open>int\<close>.
  \<^item> A Python \<open>str\<close> is the list of its code points (the values of \<open>ord\<close>), so every
    string the function can receive is covered, not only the 8-bit ones.
  \<^item> An exception is a value \<open>Inl e\<close> of a sum type; a \<open>try ... except\<close> is a case
    distinction on that value.
\<close>

datatype py_error = IndexError | KeyError | OverflowError

subsection \<open>Polyline decoder (\<open>decode_polyline\<close>, lines 74--113)\<close>

text \<open>
  \<open>lat / 1e5\<close> converts the integer to a float first. The conversion raises
  \<open>OverflowError\<close> when the integer rounds to a magnitude of at least \<open>2^1024\<close>, that is
  from \<open>2^1024 - 2^970\<close> on; below that the quotient is idealised as the exact real.
\<close>

definition int_to_float :: "int \<Rightarrow> py_error + real" where
  "int_to_float k =
     (if \<bar>k\<bar> \<ge> 2 ^ 1024 - 2 ^ 970 then Inl OverflowError else Inr (real_of_int k))"

text \<open>
  The inner \<open>while True\<close> loop (lines 86--92 and 99--105): one character per iteration,
  \<open>encoded[index]\<close> raising \<open>IndexError\<close> past the end of the string.
\<close>

function (domintros) read_chunk :: "nat list \<Rightarrow> nat \<Rightarrow> int \<Rightarrow> nat \<Rightarrow> py_error + (int \<times> nat)" where
  "read_chunk encoded index result shift =
     (if index < length encoded then
        (let b = int (encoded ! index) - 63;
             index' = index + 1;
             result' = result OR push_bit shift (b AND 0x1f);
             shift' = shift + 5
         in if b < 0x20 then Inr (result', index')
            else read_chunk encoded index' result' shift')
      else Inl IndexError)"
  by pat_completeness auto
termination
  by (relation "measure (\<lambda>(encoded, index, result, shift). length encoded - index)") auto

declare read_chunk.simps [simp del]

text \<open>\<open>~(result >> 1) if (result & 1) else (result >> 1)\<close>\<close>

definition unzigzag :: "int \<Rightarrow> int" where
  "unzigzag result =
     (if result AND 1 \<noteq> 0 then NOT (drop_bit 1 result) else drop_bit 1 result)"

lemma read_chunk_index:
  "read_chunk encoded index result shift = Inr (r, i) \<Longrightarrow> index < i \<and> i \<le> length encoded"
proof (induction encoded index result shift rule: read_chunk.induct)
  case (1 encoded index result shift)
  show ?case
  proof (cases "index < length encoded")
    case False
    with "1.prems" show ?thesis by (simp add: read_chunk.simps[of encoded index])
  next
    case True
    show ?thesis
    proof (cases "int (encoded ! index) - 63 < 0x20")
      case t: True
      with True "1.prems" show ?thesis
        by (simp add: read_chunk.simps[of encoded index] Let_def)
    next
      case f: False
      with True "1.prems" have "read_chunk encoded (index + 1)
          (result OR push_bit shift ((int (encoded ! index) - 63) AND 0x1f)) (shift + 5) = Inr (r, i)"
        by (simp add: read_chunk.simps[of encoded index] Let_def)
      from "1.IH"[OF True refl refl refl refl _ this] f show ?thesis by simp
    qed
  qed
qed

text \<open>The outer loop \<open>while index < len(encoded)\<close> (lines 82--109).\<close>

function (domintros) decode_loop ::
  "nat list \<Rightarrow> nat \<Rightarrow> int \<Rightarrow> int \<Rightarrow> (real \<times> real) list \<Rightarrow> py_error + (real \<times> real) list" where
  "decode_loop encoded index lat lng coordinates =
     (if index < length encoded then
        (case read_chunk encoded index 0 0 of
           Inl e \<Rightarrow> Inl e
         | Inr (result, index1) \<Rightarrow>
             (let dlat = unzigzag result; lat' = lat + dlat in
              case read_chunk encoded index1 0 0 of
                Inl e \<Rightarrow> Inl e
              | Inr (result2, index2) \<Rightarrow>
                  (let dlng = unzigzag result2; lng' = lng + dlng in
                   case int_to_float lat' of
                     Inl e \<Rightarrow> Inl e
                   | Inr flat \<Rightarrow>
                       (case int_to_float lng' of
                          Inl e \<Rightarrow> Inl e
                        | Inr flng \<Rightarrow>
                            decode_loop encoded index2 lat' lng'
                              (coordinates @ [(flat / 100000, flng / 100000)])))))
      else Inr coordinates)"
  by pat_completeness auto
termination
  apply (relation "measure (\<lambda>(encoded, index, lat, lng, coordinates). length encoded - index)")
   apply simp
  apply (auto dest!: read_chunk_index)
  done

declare decode_loop.simps [simp del]

definition decode_polyline :: "nat list \<Rightarrow> (real \<times> real) list" where
  "decode_polyline encoded =
     (case decode_loop encoded 0 0 0 [] of Inr coordinates \<Rightarrow> coordinates | Inl e \<Rightarrow> [])"











subsection \<open>Geo primitives (\<open>haversine_distance\<close>, \<open>estimate_travel_time\<close>, lines 15--37)\<close>

text \<open>\<open>math.radians\<close>, and the two functions as written, on reals.\<close>

definition radians :: "real \<Rightarrow> real" where
  "radians x = x * pi / 180"

definition haversine_distance :: "real \<Rightarrow> real \<Rightarrow> real \<Rightarrow> real \<Rightarrow> real" where
  "haversine_distance lat1 lon1 lat2 lon2 =
     (let R = 6371;
          lat1_rad = radians lat1;
          lat2_rad = radians lat2;
          delta_lat = radians (lat2 - lat1);
          delta_lon = radians (lon2 - lon1);
          a = (sin (delta_lat / 2))\<^sup>2 + cos lat1_rad * cos lat2_rad * (sin (delta_lon / 2))\<^sup>2;
          c = 2 * arcsin (sqrt a);
          distance_km = R * c
      in distance_km)"

definition estimate_travel_time :: "real \<Rightarrow> real" where
  "estimate_travel_time distance_km =
     (let avg_speed_kmh = 30; time_hours = distance_km / avg_speed_kmh in time_hours * 3600)"

text \<open>\<open>int(x)\<close> on a float: truncation toward zero.\<close>

definition py_int :: "real \<Rightarrow> int" where
  "py_int x = (if 0 \<le> x then \<lfloor>x\<rfloor> else \<lceil>x\<rceil>)"

subsection \<open>Distance matrix (\<open>build_distance_matrix_fast\<close>, lines 116--144)\<close>

text \<open>
  The school and the students are dictionaries; a student is a school-shaped dictionary
  with an \<open>id\<close>. The matrix is a list of rows, filled by the two nested loops with the
  two assignments \<open>distance_matrix[i][j] = distance_m\<close> and \<open>distance_matrix[j][i] = distance_m\<close>.
\<close>

record location =
  name :: string
  address :: string
  postal :: string
  latitude :: real
  longitude :: real

record student = location +
  student_id :: int

definition set_entry :: "int list list \<Rightarrow> nat \<Rightarrow> nat \<Rightarrow> int \<Rightarrow> int list list" where
  "set_entry m i j v = m[i := (m ! i)[j := v]]"

definition point_of :: "'a location_scheme \<Rightarrow> real \<times> real" where
  "point_of p = (latitude p, longitude p)"

definition pair_distance_m :: "(real \<times> real) list \<Rightarrow> nat \<Rightarrow> nat \<Rightarrow> int" where
  "pair_distance_m points i j =
     (let distance_km = haversine_distance (fst (points ! i)) (snd (points ! i))
                          (fst (points ! j)) (snd (points ! j));
          distance_m = py_int (distance_km * 1.3 * 1000)
      in distance_m)"

definition build_distance_matrix_fast ::
  "'a location_scheme \<Rightarrow> 'b location_scheme list \<Rightarrow> int list list" where
  "build_distance_matrix_fast school students =
     (let points = point_of school # map point_of students;
          n = length points;
          distance_matrix = replicate n (replicate n 0)
      in fold (\<lambda>i m.
                 fold (\<lambda>j m.
                         (let distance_m = pair_distance_m points i j
                          in set_entry (set_entry m i j distance_m) j i distance_m))
                   [i + 1..<n] m)
           [0..<n] distance_matrix)"


text \<open>For the proofs: a matrix of dimension \<open>n\<close> whose entries are given by a function.\<close>

definition mat_is :: "nat \<Rightarrow> (nat \<Rightarrow> nat \<Rightarrow> int) \<Rightarrow> int list list \<Rightarrow> bool" where
  "mat_is n f m = (length m = n \<and> (\<forall>i<n. length (m ! i) = n \<and> (\<forall>j<n. m ! i ! j = f i j)))"

definition matrix_spec :: "(real \<times> real) list \<Rightarrow> nat \<Rightarrow> nat \<Rightarrow> nat \<Rightarrow> int" where
  "matrix_spec points k i j =
     (if i < j \<and> i < k then pair_distance_m points i j
      else if j < i \<and> j < k then pair_distance_m points j i else 0)"

subsection \<open>Routing client and enrichment (lines 40--71, 147--175)\<close>

type_synonym latlng = "real \<times> real"

text \<open>
  The HTTP round trip of \<open>get_route_from_onemap\<close> (lines 42--63) is a parameter of the
  model: for an API key, a start and an end point it yields \<open>Some (total_distance,
  total_time, route_geometry)\<close> when the service answered with status code 200, a body of
  status 0 with a route summary, and nothing in the \<open>try\<close> block raised; \<open>None\<close> in every
  other case, which is when the function falls back to the straight line.
\<close>

type_synonym routing_service = "string \<Rightarrow> latlng \<Rightarrow> latlng \<Rightarrow> (real \<times> real \<times> nat list) option"

definition get_route_from_onemap ::
  "routing_service \<Rightarrow> real \<Rightarrow> real \<Rightarrow> real \<Rightarrow> real \<Rightarrow> string \<Rightarrow> real \<times> real \<times> latlng list" where
  "get_route_from_onemap service start_lat start_lng end_lat end_lng api_key =
     (case service api_key (start_lat, start_lng) (end_lat, end_lng) of
        Some (distance_m, time_s, route_geometry) \<Rightarrow>
          (let geometry = decode_polyline route_geometry
           in (distance_m / 1000, time_s, geometry))
      | None \<Rightarrow>
          (let distance = haversine_distance start_lat start_lng end_lat end_lng;
               time = estimate_travel_time distance;
               geometry = [(start_lat, start_lng), (end_lat, end_lng)]
           in (distance, time, geometry)))"

text \<open>
  A route segment is a dictionary with the keys \<open>from\<close>, \<open>to\<close> and \<open>student\<close>; the
  enrichment (lines 147--175) adds \<open>geometry\<close>, \<open>distance\<close> and \<open>time\<close> to it, one call of
  the routing client per segment.
\<close>

record segment =
  seg_from :: latlng
  seg_to :: latlng
  seg_student :: string

record enriched_segment = segment +
  geometry :: "latlng list"
  distance :: real
  time :: real

definition get_real_route_geometry_for_segments ::
  "routing_service \<Rightarrow> segment list \<Rightarrow> string \<Rightarrow> enriched_segment list" where
  "get_real_route_geometry_for_segments service route_segments api_key =
     map (\<lambda>segment.
            (let from_lat = fst (seg_from segment);
                 from_lng = snd (seg_from segment);
                 to_lat = fst (seg_to segment);
                 to_lng = snd (seg_to segment);
                 (distance_km, time_s, geometry') =
                    get_route_from_onemap service from_lat from_lng to_lat to_lng api_key
             in segment.extend segment
                  (enriched_segment.fields geometry' distance_km time_s)))
       route_segments"

text \<open>\<open>round(x)\<close> and \<open>round(x, ndigits)\<close>: to the nearest, ties to even.\<close>

definition py_round :: "real \<Rightarrow> int" where
  "py_round x =
     (let f = \<lfloor>x\<rfloor>; d = x - of_int f
      in if d < 1 / 2 then f else if 1 / 2 < d then f + 1 else if even f then f else f + 1)"

definition py_round_digits :: "real \<Rightarrow> nat \<Rightarrow> real" where
  "py_round_digits x ndigits = of_int (py_round (x * 10 ^ ndigits)) / 10 ^ ndigits"

subsection \<open>CVRP solve (\<open>solve_cvrp\<close>, lines 178--325)\<close>

text \<open>
  The three shapes of the returned dictionary: \<open>NoStudents\<close> is
  \<open>{'routes': [], 'total_distance': 0, 'total_time': 0}\<close>, \<open>NoSolution\<close> is
  \<open>{'error': 'No solution found'}\<close>, \<open>Solved\<close> carries the four keys of the last return.
\<close>

record route =
  students :: "student list"
  distance_km :: real
  time_seconds :: int
  time_minutes :: real
  student_count :: nat
  segments :: "enriched_segment list"

record cvrp_solution =
  routes :: "route list"
  total_distance :: real
  max_route_time :: real
  num_buses :: nat

datatype cvrp_result = NoStudents | NoSolution | Solved cvrp_solution

text \<open>
  The OR-Tools search is a parameter. It is handed what the code registers with the routing
  model: the distance matrix of the arc-cost callback, the number of vehicles, the depot,
  the demand of every node (0 for the school, 1 for a student), the vehicle capacities
  (40 each) and the time limit. It answers \<open>None\<close> (no solution) or, for every vehicle, the
  nodes that \<open>IndexToNode(solution.Value(NextVar(index)))\<close> yields from the start of the
  vehicle up to its end node.
\<close>

record routing_model =
  distance_matrix :: "int list list"
  num_vehicles :: nat
  depot :: nat
  demands :: "nat list"
  vehicle_capacities :: "nat list"
  time_limit_seconds :: nat

type_synonym cvrp_solver = "routing_model \<Rightarrow> (nat \<Rightarrow> nat list) option"

text \<open>Indexing with a non-negative index: \<open>IndexError\<close> past the end.\<close>

definition item :: "'a list \<Rightarrow> nat \<Rightarrow> py_error + 'a" where
  "item xs i = (if i < length xs then Inr (xs ! i) else Inl IndexError)"

definition item2 :: "'a list list \<Rightarrow> nat \<Rightarrow> nat \<Rightarrow> py_error + 'a" where
  "item2 m i j = (case item m i of Inl e \<Rightarrow> Inl e | Inr row \<Rightarrow> item row j)"

text \<open>
  The \<open>while not routing.IsEnd(index)\<close> loop of one vehicle (lines 250--295): the current
  node, the nodes still to come, and the four accumulators.
\<close>

fun extract_route ::
  "'a location_scheme \<Rightarrow> student list \<Rightarrow> int list list \<Rightarrow> nat \<Rightarrow> nat list \<Rightarrow>
   real \<times> real \<times> student list \<times> segment list \<Rightarrow>
   py_error + (real \<times> real \<times> student list \<times> segment list)" where
  "extract_route school studs matrix node_index [] acc = Inr acc"
| "extract_route school studs matrix node_index (next_node # rest)
     (route_distance, route_time, route_students, route_segments) =
     (if node_index = 0 \<and> next_node = 0 then
        Inr (route_distance, route_time, route_students, route_segments)
      else if next_node \<noteq> 0 then
        (case item studs (next_node - 1) of
           Inl e \<Rightarrow> Inl e
         | Inr student \<Rightarrow>
             (case item2 matrix node_index next_node of
                Inl e \<Rightarrow> Inl e
              | Inr distance_m \<Rightarrow>
                  (case (if node_index = 0 then Inr (point_of school)
                         else map_sum id point_of (item studs (node_index - 1))) of
                     Inl e \<Rightarrow> Inl e
                   | Inr from_point \<Rightarrow>
                       (let distance_km = real_of_int distance_m / 1000;
                            time_s = estimate_travel_time distance_km
                        in extract_route school studs matrix next_node rest
                             (route_distance + distance_km,
                              route_time + (time_s + 60),
                              route_students @ [student],
                              route_segments @
                                [\<lparr>seg_from = from_point, seg_to = point_of student,
                                  seg_student = name student\<rparr>])))))
      else
        (case (if node_index > 0 then map_sum id point_of (item studs (node_index - 1))
               else Inr (point_of school)) of
           Inl e \<Rightarrow> Inl e
         | Inr from_point \<Rightarrow>
             (case item2 matrix node_index 0 of
                Inl e \<Rightarrow> Inl e
              | Inr distance_m \<Rightarrow>
                  (let distance_km = real_of_int distance_m / 1000;
                       time_s = estimate_travel_time distance_km
                   in extract_route school studs matrix next_node rest
                        (route_distance + distance_km,
                         route_time + time_s,
                         route_students,
                         route_segments @
                           [\<lparr>seg_from = from_point, seg_to = point_of school,
                             seg_student = ''Return to School''\<rparr>])))))"

text \<open>A \<open>for\<close> loop whose body may raise.\<close>

fun fold_err :: "('a \<Rightarrow> 's \<Rightarrow> py_error + 's) \<Rightarrow> 'a list \<Rightarrow> 's \<Rightarrow> py_error + 's" where
  "fold_err f [] s = Inr s"
| "fold_err f (x # xs) s = (case f x s of Inl e \<Rightarrow> Inl e | Inr s' \<Rightarrow> fold_err f xs s')"

text \<open>The body of \<open>for vehicle_id in range(num_vehicles)\<close> (lines 243--316).\<close>

definition extract_vehicle ::
  "routing_service \<Rightarrow> string \<Rightarrow> 'a location_scheme \<Rightarrow> student list \<Rightarrow> int list list \<Rightarrow>
   (nat \<Rightarrow> nat list) \<Rightarrow> nat \<Rightarrow> route list \<times> real \<times> real \<Rightarrow>
   py_error + (route list \<times> real \<times> real)" where
  "extract_vehicle service api_key school studs matrix solution vehicle_id state =
     (case state of (routes', total_distance', max_route_time') \<Rightarrow>
        (case extract_route school studs matrix 0 (solution vehicle_id) (0, 0, [], []) of
           Inl e \<Rightarrow> Inl e
         | Inr (route_distance, route_time, route_students, route_segments) \<Rightarrow>
             (if route_students \<noteq> [] then
                (let enriched_segments =
                       get_real_route_geometry_for_segments service route_segments api_key;
                     real_distance = sum_list (map distance enriched_segments);
                     real_time = sum_list (map time enriched_segments)
                                  + real (length route_students * 60)
                 in Inr (routes' @
                           [\<lparr>students = route_students,
                             distance_km = py_round_digits real_distance 2,
                             time_seconds = py_round real_time,
                             time_minutes = py_round_digits (real_time / 60) 1,
                             student_count = length route_students,
                             segments = enriched_segments\<rparr>],
                         total_distance' + real_distance,
                         max max_route_time' real_time))
              else Inr (routes', total_distance', max_route_time'))))"

text \<open>What lines 190--230 register with the routing model before the search.\<close>

definition cvrp_model :: "int list list \<Rightarrow> nat \<Rightarrow> routing_model" where
  "cvrp_model matrix num_vehicles' =
     \<lparr>distance_matrix = matrix,
      num_vehicles = num_vehicles',
      depot = 0,
      demands = map (\<lambda>from_node. if from_node > 0 then 1 else 0) [0..<length matrix],
      vehicle_capacities = replicate num_vehicles' 40,
      time_limit_seconds = 30\<rparr>"

definition solve_cvrp ::
  "cvrp_solver \<Rightarrow> routing_service \<Rightarrow> 'a location_scheme \<Rightarrow> student list \<Rightarrow> nat \<Rightarrow> string \<Rightarrow>
   py_error + cvrp_result" where
  "solve_cvrp solver service school studs num_vehicles' api_key =
     (if studs = [] then Inr NoStudents
      else
        (let matrix = build_distance_matrix_fast school studs
         in case solver (cvrp_model matrix num_vehicles') of
              None \<Rightarrow> Inr NoSolution
            | Some solution \<Rightarrow>
                (case fold_err (extract_vehicle service api_key school studs matrix solution)
                        [0..<num_vehicles'] ([], 0, 0) of
                   Inl e \<Rightarrow> Inl e
                 | Inr (routes', total_distance', max_route_time') \<Rightarrow>
                     Inr (Solved \<lparr>routes = routes',
                                  total_distance = total_distance',
                                  max_route_time = max_route_time',
                                  num_buses = length routes'\<rparr>))))"

subsection \<open>Cluster analysis (\<open>analyze_student_clusters\<close>, lines 328--474)\<close>

text \<open>
  The DBSCAN fit is a parameter of the model: for \<open>eps\<close>, \<open>min_samples\<close> and the coordinate
  array it gives the label of every sample, \<open>-1\<close> for noise. \<open>set(labels)\<close> is iterated in
  ascending order of the cluster ids, which is the order of a Python set of the small
  non-negative integers that DBSCAN uses as ids.
\<close>

type_synonym clustering = "real \<Rightarrow> nat \<Rightarrow> latlng list \<Rightarrow> nat \<Rightarrow> int"

record cluster =
  cluster_id :: int
  cluster_size :: nat
  center :: latlng
  distance_from_school :: real
  spread :: real
  cluster_students :: "student list"

datatype advice =
    FewStudents
  | SpreadOut nat
  | OneDenseCluster nat
  | FarApart real nat
  | CloseTogether real nat

record cluster_marker =
  marker_id :: int
  marker_center :: latlng
  radius :: real
  marker_size :: nat
  marker_distance_from_school :: real

record isolated_marker =
  marker_name :: string
  marker_lat :: real
  marker_lng :: real
  marker_address :: string

record visualization =
  cluster_markers :: "cluster_marker list"
  isolated_markers :: "isolated_marker list"

text \<open>The returned dictionary, by its keys; a key that a return statement leaves out is \<open>None\<close>.\<close>

record cluster_analysis =
  clusters :: "nat option"
  recommendation :: "advice option"
  n_clusters :: "nat option"
  n_noise :: "nat option"
  cluster_info :: "cluster list option"
  isolated_students :: "student list option"
  avg_cluster_distance :: "real option"
  recommended_buses :: "nat option"
  min_buses :: "nat option"
  visualization :: "visualization option"

text \<open>\<open>np.mean\<close>, the pairs of \<open>for i in range(n): for j in range(i + 1, n)\<close>, and
  \<open>math.ceil(n / d)\<close>.\<close>

definition mean :: "real list \<Rightarrow> real" where
  "mean xs = sum_list xs / real (length xs)"

definition index_pairs :: "nat \<Rightarrow> (nat \<times> nat) list" where
  "index_pairs n = concat (map (\<lambda>i. map (\<lambda>j. (i, j)) [i + 1..<n]) [0..<n])"

definition ceil_div :: "nat \<Rightarrow> nat \<Rightarrow> nat" where
  "ceil_div n d = nat \<lceil>real n / real d\<rceil>"

definition cluster_ids :: "int list \<Rightarrow> int list" where
  "cluster_ids labels = sort (remdups (filter (\<lambda>l. l \<noteq> - 1) labels))"

text \<open>The elements selected by the mask \<open>labels == label\<close>.\<close>

definition members :: "int list \<Rightarrow> 'a list \<Rightarrow> int \<Rightarrow> 'a list" where
  "members labels xs label = map snd (filter (\<lambda>(l, x). l = label) (zip labels xs))"

text \<open>The body of \<open>for cluster_id in set(labels)\<close> (lines 362--397).\<close>

definition describe_cluster :: "'a location_scheme \<Rightarrow> student list \<Rightarrow> latlng list \<Rightarrow> int list \<Rightarrow> int \<Rightarrow> cluster" where
  "describe_cluster school studs coords labels cid =
     (let cluster_students' = members labels studs cid;
          cluster_coords = members labels coords cid;
          center_lat = mean (map fst cluster_coords);
          center_lng = mean (map snd cluster_coords);
          dist_from_school =
            haversine_distance (latitude school) (longitude school) center_lat center_lng;
          max_spread =
            fold (\<lambda>(i, j) max_spread.
                    max max_spread
                      (haversine_distance (fst (cluster_coords ! i)) (snd (cluster_coords ! i))
                         (fst (cluster_coords ! j)) (snd (cluster_coords ! j))))
              (index_pairs (length cluster_coords)) 0
      in \<lparr>cluster_id = cid,
          cluster_size = length cluster_students',
          center = (center_lat, center_lng),
          distance_from_school = dist_from_school,
          spread = max_spread,
          cluster_students = cluster_students'\<rparr>)"

text \<open>The bus allocation (lines 412--439): \<open>buses_needed\<close>, \<open>recommendation\<close>, \<open>min_buses\<close>.\<close>

definition allocate_buses ::
  "nat \<Rightarrow> nat \<Rightarrow> nat \<Rightarrow> cluster list \<Rightarrow> real list \<Rightarrow> nat \<times> advice \<times> nat" where
  "allocate_buses n_students n_clusters' n_noise' cluster_info' cluster_distances =
     (if n_clusters' = 0 then
        (let buses_needed = max 1 (ceil_div n_students 40)
         in (buses_needed, SpreadOut buses_needed, buses_needed))
      else if n_clusters' = 1 then
        (let buses_needed = max 1 (ceil_div n_students 40)
         in (buses_needed, OneDenseCluster buses_needed, 1))
      else
        (let avg_cluster_distance' =
               (if cluster_distances \<noteq> [] then mean cluster_distances else 0)
         in if avg_cluster_distance' > 7 then
              (let buses_needed =
                     sum_list (map (\<lambda>c. max 1 (ceil_div (cluster_size c) 40)) cluster_info');
                   buses_needed =
                     (if n_noise' > 0 then buses_needed + ceil_div n_noise' 40 else buses_needed)
               in (buses_needed, FarApart avg_cluster_distance' buses_needed, buses_needed))
            else
              (let buses_needed = max 1 (ceil_div n_students 40)
               in (buses_needed, CloseTogether avg_cluster_distance' buses_needed, 1))))"

definition no_keys :: cluster_analysis where
  "no_keys = \<lparr>clusters = None, recommendation = None, n_clusters = None, n_noise = None,
     cluster_info = None, isolated_students = None, avg_cluster_distance = None,
     recommended_buses = None, min_buses = None, visualization = None\<rparr>"

definition analyze_student_clusters ::
  "clustering \<Rightarrow> student list \<Rightarrow> 'a location_scheme \<Rightarrow> cluster_analysis" where
  "analyze_student_clusters dbscan studs school =
     (if length studs < 2 then
        no_keys\<lparr>clusters := Some 1, recommendation := Some FewStudents\<rparr>
      else
        (let coords = map (\<lambda>s. (latitude s, longitude s)) studs;
             labels = map (dbscan (3 / 100) 3 coords) [0..<length coords];
             n_clusters' = length (remdups labels) - (if - 1 \<in> set labels then 1 else 0);
             n_noise' = count_list labels (- 1);
             isolated_students' = (if n_noise' > 0 then members labels studs (- 1) else []);
             cluster_info' = map (describe_cluster school studs coords labels) (cluster_ids labels);
             cluster_distances =
               map (\<lambda>(i, j).
                      haversine_distance (fst (center (cluster_info' ! i)))
                        (snd (center (cluster_info' ! i)))
                        (fst (center (cluster_info' ! j))) (snd (center (cluster_info' ! j))))
                 (index_pairs (length cluster_info'));
             (buses_needed, recommendation', min_buses') =
               allocate_buses (length studs) n_clusters' n_noise' cluster_info' cluster_distances
         in \<lparr>clusters = None,
             recommendation = Some recommendation',
             n_clusters = Some n_clusters',
             n_noise = Some n_noise',
             cluster_info = Some cluster_info',
             isolated_students = Some isolated_students',
             avg_cluster_distance =
               Some (if cluster_distances \<noteq> [] then mean cluster_distances else 0),
             recommended_buses = Some buses_needed,
             min_buses = Some min_buses',
             visualization = Some
               \<lparr>cluster_markers =
                  map (\<lambda>c. \<lparr>marker_id = cluster_id c,
                             marker_center = center c,
                             radius = max 500 (spread c / 2 * 1000),
                             marker_size = cluster_size c,
                             marker_distance_from_school = distance_from_school c\<rparr>)
                    cluster_info',
                isolated_markers =
                  map (\<lambda>s. \<lparr>marker_name = name s,
                             marker_lat = latitude s,
                             marker_lng = longitude s,
                             marker_address = address s\<rparr>)
                    isolated_students'\<rparr>\<rparr>))"

subsection \<open>Orchestrator (\<open>optimize_routes\<close>, lines 477--644)\<close>

text \<open>
  The optimization note is an f-string; the model keeps its kind and the numbers it prints.
  \<open>cluster_analysis.get('visualization', {})\<close> is the empty dictionary or the payload.
\<close>

datatype plan_note =
    ClusterBased nat nat real
  | PrioritizingSpeed nat
  | OptimalBalance nat

datatype payload = EmptyDict | Payload visualization

text \<open>The returned dictionary, by its keys.\<close>

record plan =
  plan_routes :: "route list"
  total_buses :: nat
  error :: "string option"
  max_route_time_minutes :: "real option"
  total_distance_km :: "real option"
  optimization_note :: "plan_note option"
  cluster_visualization :: "payload option"

record candidate =
  cand_num_buses :: nat
  cand_routes :: "route list"
  max_time :: real
  cand_total_distance :: real

text \<open>Lines 516--527: the index of the first cluster whose centre is nearest.\<close>

definition nearest_cluster :: "student \<Rightarrow> cluster list \<Rightarrow> nat" where
  "nearest_cluster iso_student cluster_info' =
     fst (fold (\<lambda>(idx, cluster) (nearest_cluster_idx, min_dist).
                  (let dist = haversine_distance (latitude iso_student) (longitude iso_student)
                                (fst (center cluster)) (snd (center cluster))
                   in if (case min_dist of None \<Rightarrow> True | Some m \<Rightarrow> dist < m)
                      then (idx, Some dist) else (nearest_cluster_idx, min_dist)))
            (enumerate 0 cluster_info') (0, None))"

text \<open>Lines 513--531: \<open>cluster_info[nearest_cluster_idx]['students'].append(iso_student)\<close>.\<close>

definition assign_isolated :: "student list \<Rightarrow> cluster list \<Rightarrow> py_error + cluster list" where
  "assign_isolated isolated cluster_info' =
     fold_err (\<lambda>iso_student info.
                 (let nearest_cluster_idx = nearest_cluster iso_student info
                  in case item info nearest_cluster_idx of
                       Inl e \<Rightarrow> Inl e
                     | Inr c \<Rightarrow>
                         Inr (info[nearest_cluster_idx :=
                                c\<lparr>cluster_students := cluster_students c @ [iso_student]\<rparr>])))
       isolated cluster_info'"

text \<open>Lines 533--556: one solve per cluster; a cluster whose solve gives an error or no
  routes contributes nothing.\<close>

definition route_cluster ::
  "cvrp_solver \<Rightarrow> routing_service \<Rightarrow> 'a location_scheme \<Rightarrow> string \<Rightarrow> cluster \<Rightarrow>
   route list \<times> real \<times> real \<Rightarrow> py_error + (route list \<times> real \<times> real)" where
  "route_cluster solver service school api_key cluster state =
     (case state of (all_routes, total_distance', max_route_time') \<Rightarrow>
        (let cluster_students' = cluster_students cluster;
             cluster_size' = length cluster_students';
             buses_for_cluster = max 1 (ceil_div cluster_size' 40)
         in case solve_cvrp solver service school cluster_students' buses_for_cluster api_key of
              Inl e \<Rightarrow> Inl e
            | Inr (Solved result) \<Rightarrow>
                (if routes result \<noteq> [] then
                   Inr (all_routes @ routes result,
                        total_distance' + total_distance result,
                        max max_route_time' (max_route_time result))
                 else Inr (all_routes, total_distance', max_route_time'))
            | Inr _ \<Rightarrow> Inr (all_routes, total_distance', max_route_time')))"

text \<open>Lines 575--585 and 591--601: one fleet size of the sweep, inside its \<open>try\<close>.\<close>

definition try_fleet ::
  "cvrp_solver \<Rightarrow> routing_service \<Rightarrow> 'a location_scheme \<Rightarrow> student list \<Rightarrow> string \<Rightarrow>
   nat \<Rightarrow> candidate list \<Rightarrow> candidate list" where
  "try_fleet solver service school studs api_key num_buses' results =
     (case solve_cvrp solver service school studs num_buses' api_key of
        Inr (Solved result) \<Rightarrow>
          (if routes result \<noteq> [] then
             results @ [\<lparr>cand_num_buses = num_buses result,
                         cand_routes = routes result,
                         max_time = max_route_time result,
                         cand_total_distance = total_distance result\<rparr>]
           else results)
      | _ \<Rightarrow> results)"

text \<open>Lines 571--601: the candidates of the sweep.\<close>

definition sweep ::
  "cvrp_solver \<Rightarrow> routing_service \<Rightarrow> 'a location_scheme \<Rightarrow> student list \<Rightarrow> int \<Rightarrow> string \<Rightarrow>
   nat \<Rightarrow> candidate list" where
  "sweep solver service school studs max_buses api_key recommended_buses' =
     (let results = try_fleet solver service school studs api_key 1 []
      in if recommended_buses' > 1 then
           fold (try_fleet solver service school studs api_key)
             [2..<nat (min max_buses (int recommended_buses') + 1)] results
         else results)"

definition plan_of :: "candidate \<Rightarrow> plan_note option \<Rightarrow> payload \<Rightarrow> plan" where
  "plan_of best note' cluster_visualization' =
     \<lparr>plan_routes = cand_routes best,
      total_buses = cand_num_buses best,
      error = None,
      max_route_time_minutes = Some (py_round_digits (max_time best / 60) 1),
      total_distance_km = Some (py_round_digits (cand_total_distance best) 2),
      optimization_note = note',
      cluster_visualization = Some cluster_visualization'\<rparr>"

text \<open>Lines 603--644: the choice among the candidates.\<close>

definition pick_best :: "candidate list \<Rightarrow> payload \<Rightarrow> plan" where
  "pick_best results cluster_visualization' =
     (if results = [] then
        \<lparr>plan_routes = [], total_buses = 0, error = Some ''Could not create routes'',
         max_route_time_minutes = None, total_distance_km = None, optimization_note = None,
         cluster_visualization = Some cluster_visualization'\<rparr>
      else
        (let min_time = min_list (map max_time results)
         in if min_time > 1800 then
              (let best = arg_min_list max_time results
               in plan_of best (Some (PrioritizingSpeed (cand_num_buses best)))
                    cluster_visualization')
            else
              (let threshold = min_time * 1.15;
                   results_sorted = sort_key cand_num_buses results
               in case find (\<lambda>result. max_time result \<le> threshold) results_sorted of
                    Some result \<Rightarrow>
                      plan_of result (Some (OptimalBalance (cand_num_buses result)))
                        cluster_visualization'
                  | None \<Rightarrow>
                      (let best = arg_min_list max_time results
                       in plan_of best None cluster_visualization'))))"

text \<open>
  \<open>optimize_routes\<close> itself. The school is \<open>None\<close> until it is set. The clustering, the
  solver and the routing service are the three parameters described above. The counter
  \<open>bus_number\<close> of the cluster loop is never read and is left out.
\<close>

definition optimize_routes ::
  "clustering \<Rightarrow> cvrp_solver \<Rightarrow> routing_service \<Rightarrow>
   location option \<Rightarrow> student list \<Rightarrow> int \<Rightarrow> string \<Rightarrow> py_error + plan" where
  "optimize_routes dbscan solver service school_location studs max_buses api_key =
     (case school_location of
        None \<Rightarrow>
          Inr \<lparr>plan_routes = [], total_buses = 0,
               error = Some ''School location or students not set'',
               max_route_time_minutes = None, total_distance_km = None,
               optimization_note = None, cluster_visualization = None\<rparr>
      | Some school \<Rightarrow>
          (if studs = [] then
             Inr \<lparr>plan_routes = [], total_buses = 0,
                  error = Some ''School location or students not set'',
                  max_route_time_minutes = None, total_distance_km = None,
                  optimization_note = None, cluster_visualization = None\<rparr>
           else
             (let analysis = analyze_student_clusters dbscan studs school
              in case recommended_buses analysis of
                   None \<Rightarrow> Inl KeyError
                 | Some recommended_buses' \<Rightarrow>
                     (let cluster_visualization' =
                            (case visualization analysis of
                               None \<Rightarrow> EmptyDict | Some v \<Rightarrow> Payload v);
                          avg_cluster_distance' =
                            (case avg_cluster_distance analysis of None \<Rightarrow> 0 | Some d \<Rightarrow> d);
                          n_clusters' = (case n_clusters analysis of None \<Rightarrow> 0 | Some n \<Rightarrow> n);
                          cluster_info' =
                            (case cluster_info analysis of None \<Rightarrow> [] | Some cs \<Rightarrow> cs);
                          isolated_students' =
                            (case isolated_students analysis of None \<Rightarrow> [] | Some ss \<Rightarrow> ss);
                          swept = pick_best
                                    (sweep solver service school studs max_buses api_key
                                       recommended_buses')
                                    cluster_visualization'
                      in if avg_cluster_distance' > 7 \<and> n_clusters' > 1 then
                           (case assign_isolated isolated_students' cluster_info' of
                              Inl e \<Rightarrow> Inl e
                            | Inr cluster_info'' \<Rightarrow>
                                (case fold_err (route_cluster solver service school api_key)
                                        cluster_info'' ([], 0, 0) of
                                   Inl e \<Rightarrow> Inl e
                                 | Inr (all_routes, total_distance', max_route_time') \<Rightarrow>
                                     (if all_routes \<noteq> [] then
                                        Inr \<lparr>plan_routes = all_routes,
                                             total_buses = length all_routes,
                                             error = None,
                                             max_route_time_minutes =
                                               Some (py_round_digits (max_route_time' / 60) 1),
                                             total_distance_km =
                                               Some (py_round_digits total_distance' 2),
                                             optimization_note =
                                               Some (ClusterBased (length all_routes) n_clusters'
                                                       avg_cluster_distance'),
                                             cluster_visualization = Some cluster_visualization'\<rparr>
                                      else Inr swept)))
                         else Inr swept))))"

subsection \<open>Example inputs\<close>

definition origin :: location where
  "origin = \<lparr>name = ''School'', address = '''', postal = '''', latitude = 0, longitude = 0\<rparr>"


definition pupil :: "int \<Rightarrow> real \<Rightarrow> student" where
  "pupil k lng = \<lparr>name = ''Pupil'', address = '''', postal = '''', latitude = 0, longitude = lng,
     student_id = k\<rparr>"

definition flat_rate :: routing_service where
  "flat_rate api_key start end = Some (1000, 120, [])"

definition one_or_two_buses :: cvrp_solver where
  "one_or_two_buses model =
     Some (if num_vehicles model = 1 then (\<lambda>v. [1, 2, 0])
           else (\<lambda>v. if v = 0 then [1, 0] else [2, 0]))"



definition all_noise :: clustering where
  "all_noise eps min_samples coords i = - 1"

definition west_pupils :: "student list" where
  "west_pupils = [pupil 1 0, pupil 2 0, pupil 3 0]"

definition east_pupils :: "student list" where
  "east_pupils = [pupil 4 1, pupil 5 1, pupil 6 1, pupil 7 1]"

definition two_towns :: "student list" where
  "two_towns = west_pupils @ east_pupils"

definition by_town :: clustering where
  "by_town eps min_samples coords i = (if i < 3 then 0 else 1)"

definition whole_town_only :: cvrp_solver where
  "whole_town_only model =
     (if length (distance_matrix model) = 8
      then Some (\<lambda>v. if v = 0 then [1, 2, 3, 4, 5, 6, 7, 0] else [0])
      else None)"

definition west_only :: cvrp_solver where
  "west_only model =
     (if length (distance_matrix model) = 4 then Some (\<lambda>v. [1, 2, 3, 0]) else None)"

definition one_tour :: cvrp_solver where
  "one_tour model =
     (if num_vehicles model = 0 then None
      else Some (\<lambda>v. if v = 0 then [1..<length (distance_matrix model)] @ [depot model]
                      else [depot model]))"

subsection \<open>Notions used in the statements\<close>

text \<open>A candidate of the sweep: what lines 578--583 record from a solve that gave routes.\<close>

definition sweep_candidate ::
  "cvrp_solver \<Rightarrow> routing_service \<Rightarrow> 'a location_scheme \<Rightarrow> student list \<Rightarrow> string \<Rightarrow>
   candidate \<Rightarrow> bool" where
  "sweep_candidate solver service school studs api_key c =
     (\<exists>k res. solve_cvrp solver service school studs k api_key = Inr (Solved res) \<and>
        routes res \<noteq> [] \<and>
        c = \<lparr>cand_num_buses = num_buses res, cand_routes = routes res,
              max_time = max_route_time res, cand_total_distance = total_distance res\<rparr>)"


definition routes_of :: "py_error + cvrp_result \<Rightarrow> route list" where
  "routes_of outcome = (case outcome of Inr (Solved res) \<Rightarrow> routes res | _ \<Rightarrow> [])"

text \<open>
  The capacity dimension of lines 208--220, as a property of a solution: the demands
  along the path of every vehicle add up to at most the capacity of that vehicle.
\<close>

definition load :: "routing_model \<Rightarrow> nat list \<Rightarrow> nat" where
  "load model path =
     sum_list (map (\<lambda>node. if node < length (demands model) then demands model ! node else 0) path)"

definition within_capacity :: "routing_model \<Rightarrow> (nat \<Rightarrow> nat list) \<Rightarrow> bool" where
  "within_capacity model solution =
     (\<forall>v < num_vehicles model. load model (solution v) \<le> vehicle_capacities model ! v)"

text \<open>A route that some call of \<open>solve_cvrp\<close> for this school returned.\<close>

definition solved_route ::
  "cvrp_solver \<Rightarrow> routing_service \<Rightarrow> 'a location_scheme \<Rightarrow> string \<Rightarrow> route \<Rightarrow> bool" where
  "solved_route solver service school api_key r =
     (\<exists>studs k res. solve_cvrp solver service school studs k api_key = Inr (Solved res) \<and>
        r \<in> set (routes res))"

text \<open>
  The strategy is not a field of the analysis: it is the test of line 508 on the values
  that lines 497--498 read from it.
\<close>

datatype strategy = FAR_APART | CLOSE_OR_SINGLE

definition strategy :: "cluster_analysis \<Rightarrow> strategy" where
  "strategy analysis =
     (if (case avg_cluster_distance analysis of None \<Rightarrow> 0 | Some d \<Rightarrow> d) > 7 \<and>
         (case n_clusters analysis of None \<Rightarrow> 0 | Some n \<Rightarrow> n) > 1
      then FAR_APART else CLOSE_OR_SINGLE)"



text \<open>
  The clusters after lines 499--500 and 513--531 (isolated students attached), the solve of
  one cluster (lines 540--549), and the visualization payload of line 496.
\<close>

definition assigned_clusters :: "cluster_analysis \<Rightarrow> py_error + cluster list" where
  "assigned_clusters analysis =
     assign_isolated (case isolated_students analysis of None \<Rightarrow> [] | Some ss \<Rightarrow> ss)
       (case cluster_info analysis of None \<Rightarrow> [] | Some cs \<Rightarrow> cs)"

definition cluster_solve ::
  "cvrp_solver \<Rightarrow> routing_service \<Rightarrow> 'a location_scheme \<Rightarrow> string \<Rightarrow> cluster \<Rightarrow>
   py_error + cvrp_result" where
  "cluster_solve solver service school api_key c =
     solve_cvrp solver service school (cluster_students c)
       (max 1 (ceil_div (length (cluster_students c)) 40)) api_key"

definition payload_of :: "cluster_analysis \<Rightarrow> payload" where
  "payload_of analysis = (case visualization analysis of None \<Rightarrow> EmptyDict | Some v \<Rightarrow> Payload v)"

text \<open>
  What section 4.3 expects of the search when it reports a solution, stated on the routing
  model: the list that the search returns for each vehicle (the nodes after the start, in
  order) ends at the depot and does not pass through it before, and every student node
  \<open>1 .. N\<close> is on exactly one vehicle's list. \<open>student_at\<close> is the lookup
  \<open>students[node - 1]\<close> of line 259.
\<close>

definition covers_once :: "routing_model \<Rightarrow> (nat \<Rightarrow> nat list) \<Rightarrow> bool" where
  "covers_once model solution =
     ((\<forall>v \<in> set [0..<num_vehicles model].
         solution v \<noteq> [] \<and> last (solution v) = depot model \<and>
         depot model \<notin> set (butlast (solution v))) \<and>
      mset (concat (map (\<lambda>v. butlast (solution v)) [0..<num_vehicles model])) =
        mset [1..<length (distance_matrix model)])"

definition student_at :: "student list \<Rightarrow> nat \<Rightarrow> student" where
  "student_at studs node = studs ! (node - 1)"

section \<open>Properties\<close>

subsection \<open>The decoder against the format\<close>











lemma decode_loop_progress:
  "decode_loop encoded index lat lng coordinates = Inr cs \<Longrightarrow>
   index + 2 * (length cs - length coordinates) \<le> max index (length encoded) \<and>
   length coordinates \<le> length cs"
proof (induction encoded index lat lng coordinates rule: decode_loop.induct)
  case (1 encoded index lat lng coordinates)
  show ?case
  proof (cases "index < length encoded")
    case False
    with "1.prems" show ?thesis
      by (simp add: decode_loop.simps[of encoded index])
  next
    case True
    from "1.prems" True obtain v1 i1 v2 i2 flat flng where
      r1: "read_chunk encoded index 0 0 = Inr (v1, i1)" and
      r2: "read_chunk encoded i1 0 0 = Inr (v2, i2)" and
      f1: "int_to_float (lat + unzigzag v1) = Inr flat" and
      f2: "int_to_float (lng + unzigzag v2) = Inr flng" and
      rec: "decode_loop encoded i2 (lat + unzigzag v1) (lng + unzigzag v2)
              (coordinates @ [(flat / 100000, flng / 100000)]) = Inr cs"
      by (auto simp add: decode_loop.simps[of encoded index] Let_def split: sum.splits)
    from "1.IH"[OF True r1 refl refl refl r2 refl refl refl f1 f2 rec]
    have ih: "i2 + 2 * (length cs - Suc (length coordinates)) \<le> max i2 (length encoded)"
      "Suc (length coordinates) \<le> length cs"
      by simp_all
    from read_chunk_index[OF r1] read_chunk_index[OF r2] ih show ?thesis
      by simp
  qed
qed



text \<open>
  C10. \<open>decode_polyline\<close> terminates on every input: both loops are recursions that are
  well-founded on all arguments (the measure is \<open>len(encoded) - index\<close>), every chunk that
  is read moves the index strictly forward and never beyond the end of the string, and a
  run that returns has made at most \<open>len(encoded) / 2\<close> passes through the outer loop (one
  per coordinate). A read past the end is the \<open>IndexError\<close> that the handler turns into \<open>[]\<close>.
\<close>

theorem decode_polyline_terminates:
  "read_chunk_dom (encoded, index, result, shift) \<and>
   decode_loop_dom (encoded, index, lat, lng, coordinates) \<and>
   (\<forall>r i. read_chunk encoded index result shift = Inr (r, i) \<longrightarrow>
      index < i \<and> i \<le> length encoded) \<and>
   (read_chunk encoded index result shift = Inl IndexError \<or>
    (\<exists>r i. read_chunk encoded index result shift = Inr (r, i))) \<and>
   2 * length (decode_polyline encoded) \<le> length encoded"
proof (intro conjI allI impI)
  show "read_chunk_dom (encoded, index, result, shift)"
  proof (induction "length encoded - index" arbitrary: index result shift rule: less_induct)
    case less
    show ?case
      by (rule read_chunk.domintros) (auto intro!: less)
  qed
  show "decode_loop_dom (encoded, index, lat, lng, coordinates)"
  proof (induction "length encoded - index" arbitrary: index lat lng coordinates rule: less_induct)
    case less
    show ?case
    proof (rule decode_loop.domintros)
      fix result index1 result2 index2 flat flng
      assume "index < length encoded"
        and "read_chunk encoded index 0 0 = Inr (result, index1)"
        and "read_chunk encoded index1 0 0 = Inr (result2, index2)"
      then have "length encoded - index2 < length encoded - index"
        by (auto dest!: read_chunk_index)
      then show "decode_loop_dom (encoded, index2, lat + unzigzag result, lng + unzigzag result2,
          coordinates @ [(flat / 100000, flng / 100000)])"
        by (rule less)
    qed
  qed
  show "index < i" "i \<le> length encoded" if "read_chunk encoded index result shift = Inr (r, i)" for r i
    using read_chunk_index[OF that] by simp_all
  show "read_chunk encoded index result shift = Inl IndexError \<or>
    (\<exists>r i. read_chunk encoded index result shift = Inr (r, i))"
  proof (induction encoded index result shift rule: read_chunk.induct)
    case (1 encoded index result shift)
    show ?case
    proof (cases "index < length encoded \<and> \<not> int (encoded ! index) - 63 < 0x20")
      case True
      with "1.IH"[OF _ refl refl refl refl] show ?thesis
        by (simp add: read_chunk.simps[of encoded index] Let_def)
    next
      case False
      then show ?thesis
        by (auto simp add: read_chunk.simps[of encoded index] Let_def)
    qed
  qed
  show "2 * length (decode_polyline encoded) \<le> length encoded"
  proof (cases "decode_loop encoded 0 0 0 []")
    case (Inl e)
    then show ?thesis by (simp add: decode_polyline_def)
  next
    case (Inr cs)
    from decode_loop_progress[OF Inr] Inr show ?thesis
      by (simp add: decode_polyline_def)
  qed
qed

theorem decode_polyline_terminates_witness:
  "read_chunk [95, 112, 126, 105, 70] 0 0 0 = Inr (7700000, 5) \<and>
   (0::nat) < 5 \<and> (5::nat) \<le> length [95, 112, 126, 105, 70 :: nat] \<and>
   read_chunk [95, 112] 0 0 0 = Inl IndexError"
  using decode_polyline_terminates[of "[95, 112, 126, 105, 70]" 0 0 0 0 0 "[]"]
  by (simp add: read_chunk.simps)

subsection \<open>The distance matrix\<close>





lemma pi_ge_3: "3 \<le> pi"
  using sin_x_le_x[of "pi / 6"] by (simp add: sin_30)

lemma haversine_equator:
  assumes "\<bar>lon2 - lon1\<bar> \<le> 180"
  shows "haversine_distance 0 lon1 0 lon2 = 6371 * \<bar>radians (lon2 - lon1)\<bar>"
proof -
  define y where "y = radians (lon2 - lon1) / 2"
  have yb: "\<bar>y\<bar> \<le> pi / 2"
    using assms by (simp add: y_def radians_def abs_mult) 
  have "\<bar>sin y\<bar> = sin \<bar>y\<bar>"
  proof (cases "0 \<le> y")
    case True
    with yb have "0 \<le> sin y" by (intro sin_ge_zero) auto
    with True show ?thesis by simp
  next
    case False
    with yb have "0 \<le> sin (- y)" by (intro sin_ge_zero) auto
    with False show ?thesis by simp
  qed
  then have "arcsin \<bar>sin y\<bar> = \<bar>y\<bar>"
    using yb by (simp add: arcsin_sin)
  then show ?thesis
    by (simp add: haversine_distance_def Let_def radians_def[of 0] flip: y_def) (simp add: y_def)
qed


lemma mat_is_set_entry:
  assumes "mat_is n f m" "i < n" "j < n"
  shows "mat_is n (\<lambda>a b. if a = i \<and> b = j then v else f a b) (set_entry m i j v)"
  using assms by (auto simp add: mat_is_def set_entry_def nth_list_update)

lemma mat_is_cong:
  "mat_is n f m \<Longrightarrow> (\<And>i j. i < n \<Longrightarrow> j < n \<Longrightarrow> f i j = g i j) \<Longrightarrow> mat_is n g m"
  by (simp add: mat_is_def)

lemma mat_is_row:
  assumes "mat_is n f m" "i < n" "set js \<subseteq> {..<n}"
  shows "mat_is n (\<lambda>a b. if a = i \<and> b \<in> set js then d b
                        else if b = i \<and> a \<in> set js then d a else f a b)
           (fold (\<lambda>j m. (let distance_m = d j
                          in set_entry (set_entry m i j distance_m) j i distance_m)) js m)"
  using assms
proof (induction js arbitrary: m f)
  case Nil
  then show ?case by simp
next
  case (Cons j js)
  let ?f' = "\<lambda>a b. if a = j \<and> b = i then d j else (if a = i \<and> b = j then d j else f a b)"
  from Cons.prems have j: "j < n" by simp
  have "mat_is n ?f' (set_entry (set_entry m i j (d j)) j i (d j))"
    by (intro mat_is_set_entry Cons.prems j)
  from Cons.IH[OF this Cons.prems(2)] Cons.prems(3)
  have "mat_is n (\<lambda>a b. if a = i \<and> b \<in> set js then d b
                        else if b = i \<and> a \<in> set js then d a else ?f' a b)
      (fold (\<lambda>j m. (let distance_m = d j
                          in set_entry (set_entry m i j distance_m) j i distance_m)) (j # js) m)"
    by (simp add: Let_def)
  then show ?case
    by (rule mat_is_cong) auto
qed

lemma mat_is_rows:
  assumes "k \<le> n"
  shows "mat_is n (matrix_spec points k)
     (fold (\<lambda>i m.
                 fold (\<lambda>j m.
                         (let distance_m = pair_distance_m points i j
                          in set_entry (set_entry m i j distance_m) j i distance_m))
                   [i + 1..<n] m)
           [0..<k] (replicate n (replicate n 0)))"
  using assms
proof (induction k)
  case 0
  then show ?case by (simp add: mat_is_def matrix_spec_def)
next
  case (Suc k)
  then have k: "k < n" and ih: "mat_is n (matrix_spec points k)
     (fold (\<lambda>i m.
                 fold (\<lambda>j m.
                         (let distance_m = pair_distance_m points i j
                          in set_entry (set_entry m i j distance_m) j i distance_m))
                   [i + 1..<n] m)
           [0..<k] (replicate n (replicate n 0)))"
    by simp_all
  have "set [k + 1..<n] \<subseteq> {..<n}" by auto
  from mat_is_row[OF ih k this, of "pair_distance_m points k"]
  show ?case
    by (simp only: upt_Suc_append[OF le0] fold_append fold_simps comp_apply)
       (rule mat_is_cong, assumption, auto simp add: matrix_spec_def)
qed

lemma build_distance_matrix_fast_entries:
  "mat_is (Suc (length studs))
     (matrix_spec (point_of school # map point_of studs) (Suc (length studs)))
     (build_distance_matrix_fast school studs)"
  using mat_is_rows[of "Suc (length studs)" "Suc (length studs)"
      "point_of school # map point_of studs"]
  by (simp add: build_distance_matrix_fast_def Let_def)










subsection \<open>A single student\<close>

text \<open>
  C1 asks for a plan with one route when there is exactly one student. The code does not
  get that far: for fewer than two students \<open>analyze_student_clusters\<close> returns a dictionary
  with the keys \<open>clusters\<close> and \<open>recommendation\<close> only, and line 495 of \<open>optimize_routes\<close>
  indexes it with \<open>'recommended_buses'\<close>. Whatever the school, the student, the solver and
  the routing service are, the call raises \<open>KeyError\<close>.
\<close>

theorem single_student_key_error:
  "optimize_routes dbscan solver service (Some school) [student] 3 api_key = Inl KeyError"
  by (simp add: optimize_routes_def analyze_student_clusters_def no_keys_def)

subsection \<open>Loops, solves and the examples\<close>


lemma find_Some_set: "find P xs = Some x \<Longrightarrow> x \<in> set xs \<and> P x"
  by (auto simp add: find_Some_iff)



lemma fold_err_invariant:
  assumes "fold_err f xs s = Inr s'" and "P s"
    and "\<And>x s s'. x \<in> set xs \<Longrightarrow> P s \<Longrightarrow> f x s = Inr s' \<Longrightarrow> P s'"
  shows "P s'"
  using assms
proof (induction xs arbitrary: s)
  case Nil
  then show ?case by simp
next
  case (Cons x xs)
  from Cons.prems(1) obtain s1 where s1: "f x s = Inr s1" "fold_err f xs s1 = Inr s'"
    by (auto split: sum.splits)
  have p1: "P s1" by (rule Cons.prems(3)[OF _ Cons.prems(2) s1(1)]) simp
  show ?case
  proof (rule Cons.IH[OF s1(2) p1])
    fix y t t' assume "y \<in> set xs" "P t" "f y t = Inr t'"
    then show "P t'" using Cons.prems(3)[of y t t'] by simp
  qed
qed



lemma try_fleet_cases:
  "try_fleet solver service school studs api_key k results = results \<or>
   (\<exists>res. solve_cvrp solver service school studs k api_key = Inr (Solved res) \<and>
      routes res \<noteq> [] \<and>
      try_fleet solver service school studs api_key k results =
        results @ [\<lparr>cand_num_buses = num_buses res, cand_routes = routes res,
                    max_time = max_route_time res, cand_total_distance = total_distance res\<rparr>])"
  by (auto simp add: try_fleet_def split: sum.splits cvrp_result.splits)

lemma try_fleet_candidates:
  assumes "\<And>c. c \<in> set results \<Longrightarrow> sweep_candidate solver service school studs api_key c"
    and "c \<in> set (try_fleet solver service school studs api_key k results)"
  shows "sweep_candidate solver service school studs api_key c"
proof -
  from try_fleet_cases[of solver service school studs api_key k results]
  consider "try_fleet solver service school studs api_key k results = results"
    | res where "solve_cvrp solver service school studs k api_key = Inr (Solved res)"
      "routes res \<noteq> []"
      "try_fleet solver service school studs api_key k results =
        results @ [\<lparr>cand_num_buses = num_buses res, cand_routes = routes res,
                    max_time = max_route_time res, cand_total_distance = total_distance res\<rparr>]"
    by blast
  then show ?thesis
  proof cases
    case 1
    with assms show ?thesis by simp
  next
    case 2
    show ?thesis
    proof (cases "c \<in> set results")
      case True
      then show ?thesis by (rule assms(1))
    next
      case False
      with assms(2) 2(3) have "c = \<lparr>cand_num_buses = num_buses res, cand_routes = routes res,
          max_time = max_route_time res, cand_total_distance = total_distance res\<rparr>"
        by simp
      with 2(1,2) show ?thesis
        unfolding sweep_candidate_def by blast
    qed
  qed
qed

lemma fold_try_fleet_candidates:
  assumes "\<And>c. c \<in> set results \<Longrightarrow> sweep_candidate solver service school studs api_key c"
    and "c \<in> set (fold (try_fleet solver service school studs api_key) ks results)"
  shows "sweep_candidate solver service school studs api_key c"
  using assms
proof (induction ks arbitrary: results)
  case Nil
  then show ?case by simp
next
  case (Cons k ks)
  show ?case
  proof (rule Cons.IH)
    show "c \<in> set (fold (try_fleet solver service school studs api_key) ks
        (try_fleet solver service school studs api_key k results))"
      using Cons.prems(2) by simp
  next
    fix c' assume "c' \<in> set (try_fleet solver service school studs api_key k results)"
    then show "sweep_candidate solver service school studs api_key c'"
      by (rule try_fleet_candidates[rotated]) (rule Cons.prems(1))
  qed
qed

lemma sweep_candidates:
  assumes "c \<in> set (sweep solver service school studs max_buses api_key rb)"
  shows "sweep_candidate solver service school studs api_key c"
proof -
  have one: "sweep_candidate solver service school studs api_key c'"
    if "c' \<in> set (try_fleet solver service school studs api_key 1 [])" for c'
    by (rule try_fleet_candidates[OF _ that]) simp
  show ?thesis
  proof (cases "rb > 1")
    case True
    with assms show ?thesis
      by (auto simp add: sweep_def Let_def intro: fold_try_fleet_candidates[OF one])
  next
    case False
    with assms show ?thesis
      by (auto simp add: sweep_def Let_def intro: one)
  qed
qed

lemma pupil_fields [simp]:
  "student_id (pupil k lng) = k" "latitude (pupil k lng) = 0" "longitude (pupil k lng) = lng"
  "name (pupil k lng) = ''Pupil''"
  by (simp_all add: pupil_def)

lemma origin_fields [simp]: "latitude origin = 0" "longitude origin = 0"
  by (simp_all add: origin_def)

lemma haversine_self [simp]: "haversine_distance lat lon lat lon = 0"
  by (simp add: haversine_distance_def radians_def)

lemma decode_polyline_empty [simp]: "decode_polyline [] = []"
  by (simp add: decode_polyline_def decode_loop.simps)

lemma origin_pair_matrix:
  "build_distance_matrix_fast origin [pupil 1 0, pupil 2 0] = [[0, 0, 0], [0, 0, 0], [0, 0, 0]]"
  by (simp add: build_distance_matrix_fast_def Let_def set_entry_def pair_distance_m_def
      point_of_def py_int_def upt_rec_numeral)

lemmas evaluate_solve =
  solve_cvrp_def cvrp_model_def Let_def extract_vehicle_def item_def item2_def estimate_travel_time_def
  get_real_route_geometry_for_segments_def get_route_from_onemap_def
  py_round_def py_round_digits_def point_of_def segment.defs enriched_segment.defs
  upt_conv_Cons

lemma length_build_distance_matrix_fast:
  "length (build_distance_matrix_fast school studs) = Suc (length studs)"
  using build_distance_matrix_fast_entries[of studs school] by (simp add: mat_is_def)

lemma route_cluster_routes:
  assumes "route_cluster solver service school api_key c (rs, td, m) = Inr (rs', td', m')"
    and "\<forall>r \<in> set rs. solved_route solver service school api_key r"
  shows "\<forall>r \<in> set rs'. solved_route solver service school api_key r"
proof -
  let ?k = "max 1 (ceil_div (length (cluster_students c)) 40)"
  from assms(1) consider "rs' = rs"
    | res where "solve_cvrp solver service school (cluster_students c) ?k api_key = Inr (Solved res)"
      "rs' = rs @ routes res"
    by (auto simp add: route_cluster_def Let_def split: sum.splits cvrp_result.splits if_splits)
  then show ?thesis
  proof cases
    case 1
    with assms(2) show ?thesis by simp
  next
    case 2
    have "solved_route solver service school api_key r" if "r \<in> set (routes res)" for r
      unfolding solved_route_def using 2(1) that by blast
    with assms(2) 2(2) show ?thesis by auto
  qed
qed

lemma pick_best_routes:
  assumes "r \<in> set (plan_routes (pick_best results viz))"
  shows "\<exists>c \<in> set results. r \<in> set (cand_routes c)"
proof (cases "results = []")
  case True
  with assms show ?thesis by (simp add: pick_best_def)
next
  case False
  then have "arg_min_list max_time results \<in> set results"
    by (rule arg_min_list_in)
  moreover have "c \<in> set results"
    if "find P (sort_key cand_num_buses results) = Some c" for P c
    using find_Some_set[OF that] by simp
  ultimately show ?thesis
    using assms False
    by (auto simp add: pick_best_def Let_def plan_of_def split: if_splits option.splits)
qed

lemma sweep_routes:
  assumes "r \<in> set (plan_routes (pick_best (sweep solver service school studs max_buses api_key rb) viz))"
  shows "solved_route solver service school api_key r"
proof -
  from pick_best_routes[OF assms] obtain c where
    c: "c \<in> set (sweep solver service school studs max_buses api_key rb)" "r \<in> set (cand_routes c)"
    by blast
  from sweep_candidates[OF c(1)] c(2) show ?thesis
    unfolding sweep_candidate_def solved_route_def by fastforce
qed

lemma optimize_routes_routes:
  assumes "optimize_routes dbscan solver service (Some school) studs max_buses api_key = Inr plan"
    and "r \<in> set (plan_routes plan)"
  shows "solved_route solver service school api_key r"
proof -
  let ?a = "analyze_student_clusters dbscan studs school"
  from assms have ne: "studs \<noteq> []"
    by (auto simp add: optimize_routes_def split: if_splits)
  with assms(1) obtain rb where rb: "recommended_buses ?a = Some rb"
    by (auto simp add: optimize_routes_def Let_def split: option.splits)
  let ?viz = "case visualization ?a of None \<Rightarrow> EmptyDict | Some v \<Rightarrow> Payload v"
  let ?swept = "pick_best (sweep solver service school studs max_buses api_key rb) ?viz"
  from assms(1) ne rb consider "plan = ?swept"
    | info rs td m where
      "fold_err (route_cluster solver service school api_key) info ([], 0, 0) = Inr (rs, td, m)"
      "plan_routes plan = rs"
    by (auto simp add: optimize_routes_def Let_def split: if_splits sum.splits prod.splits)
  then show ?thesis
  proof cases
    case 1
    with assms(2) show ?thesis by (auto intro: sweep_routes)
  next
    case 2
    have "\<forall>r \<in> set (fst (rs, td, m)). solved_route solver service school api_key r"
      by (rule fold_err_invariant[OF 2(1),
            where P = "\<lambda>s. \<forall>r \<in> set (fst s). solved_route solver service school api_key r"])
         (auto dest: route_cluster_routes)
    with 2(2) assms(2) show ?thesis by simp
  qed
qed

lemma ceil_div_40 [simp]: "0 < n \<Longrightarrow> n \<le> 40 \<Longrightarrow> ceil_div n 40 = 1"
  unfolding ceil_div_def
proof -
  assume "0 < n" "n \<le> 40"
  then have "0 < real n / real 40" "real n / real 40 \<le> 1" by simp_all
  then have "\<lceil>real n / real 40\<rceil> = 1" by (simp add: ceiling_eq_iff)
  then show "nat \<lceil>real n / real 40\<rceil> = 1" by simp
qed

lemma ceil_div_0 [simp]: "ceil_div 0 d = 0"
  by (simp add: ceil_div_def)

lemma all_noise_labels [simp]: "map (all_noise eps k coords) [0..<n] = replicate n (- 1)"
proof -
  have "all_noise eps k coords = (\<lambda>i. - 1)"
    by (rule ext) (simp add: all_noise_def)
  then show ?thesis
    by (simp add: map_replicate_const)
qed

lemma all_noise_analysis:
  "analyze_student_clusters all_noise [pupil 1 0, pupil 2 0] origin =
    \<lparr>clusters = None,
     recommendation = Some (SpreadOut 1),
     n_clusters = Some 0,
     n_noise = Some 2,
     cluster_info = Some [],
     isolated_students = Some [pupil 1 0, pupil 2 0],
     avg_cluster_distance = Some 0,
     recommended_buses = Some 1,
     min_buses = Some 1,
     visualization = Some
       \<lparr>cluster_markers = [],
        isolated_markers =
          [\<lparr>marker_name = ''Pupil'', marker_lat = 0, marker_lng = 0, marker_address = ''''\<rparr>,
           \<lparr>marker_name = ''Pupil'', marker_lat = 0, marker_lng = 0, marker_address = ''''\<rparr>]\<rparr>\<rparr>"
  by (simp add: analyze_student_clusters_def Let_def cluster_ids_def members_def
      index_pairs_def allocate_buses_def upt_conv_Cons pupil_def)

lemma all_noise_plan:
  "(case optimize_routes all_noise one_or_two_buses flat_rate (Some origin)
           [pupil 1 0, pupil 2 0] 3 [] of
      Inr plan \<Rightarrow>
        (error plan, total_buses plan, map (map student_id \<circ> students) (plan_routes plan))
    | Inl e \<Rightarrow> (None, 0, [])) = (None, 1, [[1, 2]])"
  by (simp add: optimize_routes_def all_noise_analysis sweep_def try_fleet_def evaluate_solve
      origin_pair_matrix one_or_two_buses_def flat_rate_def pick_best_def plan_of_def)

lemma haversine_equator_simp:
  "\<bar>lon2 - lon1\<bar> \<le> 180 \<Longrightarrow> haversine_distance 0 lon1 0 lon2 = 6371 * \<bar>lon2 - lon1\<bar> * pi / 180"
  by (simp add: haversine_equator radians_def abs_mult)

lemma one_degree: "haversine_distance 0 0 0 1 = 6371 * pi / 180"
  by (simp add: haversine_equator_simp)

lemma one_degree_far: "7 < 6371 * pi / 180"
  using pi_ge_3 by simp

lemma by_town_labels:
  "map (by_town eps k coords) [0..<7] = [0, 0, 0, 1, 1, 1, 1]"
proof -
  have "by_town eps k coords = (\<lambda>i. if i < 3 then 0 else 1)"
    by (rule ext) (simp add: by_town_def)
  then show ?thesis
    by (simp add: upt_conv_Cons)
qed

lemma west_cluster:
  "describe_cluster origin two_towns
     (map (\<lambda>s. (latitude s, longitude s)) two_towns) [0, 0, 0, 1, 1, 1, 1] 0 =
   \<lparr>cluster_id = 0, cluster_size = 3, center = (0, 0), distance_from_school = 0,
      spread = 0, cluster_students = west_pupils\<rparr>"
  by (simp add: describe_cluster_def Let_def members_def mean_def index_pairs_def upt_conv_Cons
      two_towns_def west_pupils_def east_pupils_def)

lemma east_cluster:
  "describe_cluster origin two_towns
     (map (\<lambda>s. (latitude s, longitude s)) two_towns) [0, 0, 0, 1, 1, 1, 1] 1 =
   \<lparr>cluster_id = 1, cluster_size = 4, center = (0, 1), distance_from_school = 6371 * pi / 180,
      spread = 0, cluster_students = east_pupils\<rparr>"
  by (simp add: describe_cluster_def Let_def members_def mean_def index_pairs_def upt_conv_Cons
      two_towns_def west_pupils_def east_pupils_def one_degree)

lemma two_towns_length [simp]: "length two_towns = 7"
  by (simp add: two_towns_def west_pupils_def east_pupils_def)

lemma two_towns_ids: "cluster_ids [0, 0, 0, 1, 1, 1, 1] = [0, 1]"
  by (simp add: cluster_ids_def)

lemma two_towns_analysis:
  "analyze_student_clusters by_town two_towns origin =
    \<lparr>clusters = None,
     recommendation = Some (FarApart (6371 * pi / 180) 2),
     n_clusters = Some 2,
     n_noise = Some 0,
     cluster_info = Some
       [\<lparr>cluster_id = 0, cluster_size = 3, center = (0, 0), distance_from_school = 0,
          spread = 0, cluster_students = west_pupils\<rparr>,
        \<lparr>cluster_id = 1, cluster_size = 4, center = (0, 1),
          distance_from_school = 6371 * pi / 180,
          spread = 0, cluster_students = east_pupils\<rparr>],
     isolated_students = Some [],
     avg_cluster_distance = Some (6371 * pi / 180),
     recommended_buses = Some 2,
     min_buses = Some 2,
     visualization = Some
       \<lparr>cluster_markers =
          [\<lparr>marker_id = 0, marker_center = (0, 0), radius = 500, marker_size = 3,
             marker_distance_from_school = 0\<rparr>,
           \<lparr>marker_id = 1, marker_center = (0, 1), radius = 500, marker_size = 4,
             marker_distance_from_school = 6371 * pi / 180\<rparr>],
        isolated_markers = []\<rparr>\<rparr>"
proof -
  let ?coords = "map (\<lambda>s. (latitude s, longitude s)) two_towns"
  have labels: "map (by_town (3 / 100) 3 ?coords) [0..<length ?coords] = [0, 0, 0, 1, 1, 1, 1]"
    by (simp add: by_town_labels)
  have pairs: "index_pairs (length [a, b]) = [(0, 1)]" for a b :: cluster
    by (simp add: index_pairs_def upt_conv_Cons)
  have not_few: "\<not> length two_towns < 2" by simp
  have far: "1260 < 6371 * pi" using pi_ge_3 by simp
  show ?thesis
    unfolding analyze_student_clusters_def Let_def labels two_towns_ids
    apply (simp only: not_few if_False list.map west_cluster east_cluster pairs)
    apply (simp add: mean_def one_degree allocate_buses_def Let_def far)
    done
qed

lemma item2_matrix:
  assumes "i \<le> length studs" "j \<le> length studs"
  shows "item2 (build_distance_matrix_fast school studs) i j =
    Inr (build_distance_matrix_fast school studs ! i ! j)"
  using build_distance_matrix_fast_entries[of studs school] assms
  by (simp add: item2_def item_def mat_is_def)

lemma two_towns_assigned:
  "assigned_clusters (analyze_student_clusters by_town two_towns origin) =
     Inr [\<lparr>cluster_id = 0, cluster_size = 3, center = (0, 0), distance_from_school = 0,
            spread = 0, cluster_students = west_pupils\<rparr>,
          \<lparr>cluster_id = 1, cluster_size = 4, center = (0, 1),
            distance_from_school = 6371 * pi / 180,
            spread = 0, cluster_students = east_pupils\<rparr>]"
  by (simp add: assigned_clusters_def two_towns_analysis assign_isolated_def)

subsection \<open>The selection rule of the sweep\<close>





subsection \<open>Where the routing client is called\<close>

lemma enriched_segments:
  "s \<in> set (get_real_route_geometry_for_segments service raw api_key) \<Longrightarrow>
   (distance s, time s, geometry s) =
     get_route_from_onemap service (fst (seg_from s)) (snd (seg_from s))
       (fst (seg_to s)) (snd (seg_to s)) api_key"
  by (auto simp add: get_real_route_geometry_for_segments_def Let_def segment.defs
      enriched_segment.defs split: prod.splits)







subsection \<open>The far-apart threshold\<close>







lemma set_cluster_ids: "set (cluster_ids labels) = set labels - {- 1}"
  by (auto simp add: cluster_ids_def)


lemma length_members:
  "length labels = length xs \<Longrightarrow> length (members labels xs label) = count_list labels label"
  by (induction labels xs rule: list_induct2) (simp_all add: members_def)




subsection \<open>Capacity\<close>

lemma extract_route_count:
  "extract_route school studs matrix node path (d, t, rs, segs) = Inr (d', t', rs', segs') \<Longrightarrow>
   length rs' \<le> length rs + length (filter (\<lambda>n. 0 < n \<and> n \<le> length studs) path)"
proof (induction path arbitrary: node d t rs segs)
  case Nil
  then show ?case by simp
next
  case (Cons next_node rest)
  show ?case
  proof (cases "node = 0 \<and> next_node = 0")
    case True
    with Cons.prems show ?thesis by simp
  next
    case False
    show ?thesis
    proof (cases "next_node = 0")
      case True
      with False Cons.prems obtain d1 t1 segs1 where
        "extract_route school studs matrix next_node rest (d1, t1, rs, segs1) =
           Inr (d', t', rs', segs')"
        by (auto simp add: Let_def split: sum.splits if_splits)
      from Cons.IH[OF this] True show ?thesis by simp
    next
      case nz: False
      with False Cons.prems obtain d1 t1 student segs1 where
        r: "extract_route school studs matrix next_node rest (d1, t1, rs @ [student], segs1) =
           Inr (d', t', rs', segs')" and "item studs (next_node - 1) = Inr student"
        by (auto simp add: Let_def split: sum.splits if_splits)
      then have "next_node - 1 < length studs"
        by (simp add: item_def split: if_splits)
      with nz have "0 < next_node \<and> next_node \<le> length studs" by simp
      with Cons.IH[OF r] show ?thesis by simp
    qed
  qed
qed

lemma load_cvrp_model:
  "load (cvrp_model matrix k) path =
     length (filter (\<lambda>n. 0 < n \<and> n < length matrix) path)"
  by (induction path) (auto simp add: load_def cvrp_model_def)

lemma solve_cvrp_capacity:
  assumes ok: "\<And>solution.
      solver (cvrp_model (build_distance_matrix_fast school studs) k) = Some solution \<Longrightarrow>
      within_capacity (cvrp_model (build_distance_matrix_fast school studs) k) solution"
    and "solve_cvrp solver service school studs k api_key = Inr (Solved res)"
  shows "\<forall>r \<in> set (routes res). length (students r) \<le> 40"
proof -
  let ?matrix = "build_distance_matrix_fast school studs"
  from assms(2) obtain solution rs td m where
    s: "solver (cvrp_model ?matrix k) = Some solution" and
    f: "fold_err (extract_vehicle service api_key school studs ?matrix solution) [0..<k]
          ([], 0, 0) = Inr (rs, td, m)"
    and res: "routes res = rs"
    by (auto simp add: solve_cvrp_def Let_def split: if_splits option.splits sum.splits prod.splits)
  have cap: "length (filter (\<lambda>n. 0 < n \<and> n \<le> length studs) (solution v)) \<le> 40" if "v < k" for v
  proof -
    from ok[OF s] that have "load (cvrp_model ?matrix k) (solution v) \<le> 40"
      by (simp add: within_capacity_def cvrp_model_def)
    then show ?thesis
      by (simp add: load_cvrp_model length_build_distance_matrix_fast less_Suc_eq_le)
  qed
  have "\<forall>r \<in> set (fst (rs, td, m)). length (students r) \<le> 40"
  proof (rule fold_err_invariant[OF f, where P = "\<lambda>s. \<forall>r \<in> set (fst s). length (students r) \<le> 40"])
    show "\<forall>r \<in> set (fst ([], 0, 0)). length (students r) \<le> 40" by simp
  next
    fix v s s'
    assume v: "v \<in> set [0..<k]" and P: "\<forall>r \<in> set (fst s). length (students r) \<le> 40"
      and step: "extract_vehicle service api_key school studs ?matrix solution v s = Inr s'"
    obtain rs0 td0 m0 where s0: "s = (rs0, td0, m0)" by (cases s)
    from step obtain d t route_students segs where
      e: "extract_route school studs ?matrix 0 (solution v) (0, 0, [], []) =
            Inr (d, t, route_students, segs)"
      and cases: "fst s' = rs0 \<or> (\<exists>r. fst s' = rs0 @ [r] \<and> students r = route_students)"
      unfolding s0
      by (auto simp add: extract_vehicle_def Let_def split: sum.splits if_splits prod.splits)
    from extract_route_count[OF e] cap[of v] v have "length route_students \<le> 40" by simp
    with cases P s0 show "\<forall>r \<in> set (fst s'). length (students r) \<le> 40" by auto
  qed
  with res show ?thesis by simp
qed

lemma one_or_two_buses_within:
  assumes "one_or_two_buses (cvrp_model matrix k) = Some solution"
  shows "within_capacity (cvrp_model matrix k) solution"
proof -
  have "length (filter P (solution v)) \<le> 40" for P v
  proof -
    have "length (filter P (solution v)) \<le> length (solution v)" by simp
    also from assms have "length (solution v) \<le> 40"
      by (auto simp add: one_or_two_buses_def split: if_splits)
    finally show ?thesis .
  qed
  then show ?thesis
    by (simp add: within_capacity_def load_cvrp_model) (simp add: cvrp_model_def)
qed

text \<open>
  C7. The search is given a capacity of 40 for every vehicle and a demand of 1 for every
  student. Whenever the solutions it returns keep the load of every vehicle within the
  capacity it was given, every route of every plan that \<open>optimize_routes\<close> returns has at
  most 40 students: a route holds one student for every student node on the path of its
  vehicle, and every route of a plan comes from such a solve.
\<close>

theorem routes_within_capacity:
  assumes "\<And>(studs' :: student list) k solution.
      solver (cvrp_model (build_distance_matrix_fast school studs') k) = Some solution \<Longrightarrow>
      within_capacity (cvrp_model (build_distance_matrix_fast school studs') k) solution"
    and "optimize_routes dbscan solver service (Some school) studs max_buses api_key = Inr plan"
  shows "\<forall>r \<in> set (plan_routes plan). length (students r) \<le> 40"
proof
  fix r assume "r \<in> set (plan_routes plan)"
  with assms(2) have "solved_route solver service school api_key r"
    by (rule optimize_routes_routes)
  then obtain studs' k res where
    res: "solve_cvrp solver service school studs' k api_key = Inr (Solved res)"
    and r: "r \<in> set (routes res)"
    unfolding solved_route_def by blast
  have "\<forall>r \<in> set (routes res). length (students r) \<le> 40"
  proof (rule solve_cvrp_capacity)
    fix solution
    assume "solver (cvrp_model (build_distance_matrix_fast school studs') k) = Some solution"
    then show "within_capacity (cvrp_model (build_distance_matrix_fast school studs') k) solution"
      by (rule assms(1))
  next
    show "solve_cvrp solver service school studs' k api_key = Inr (Solved res)" by (rule res)
  qed
  with r show "length (students r) \<le> 40" by simp
qed

theorem routes_within_capacity_witness:
  "\<exists>plan. optimize_routes all_noise one_or_two_buses flat_rate (Some origin)
             [pupil 1 0, pupil 2 0] 3 [] = Inr plan \<and>
          map (map student_id \<circ> students) (plan_routes plan) = [[1, 2]] \<and>
          (\<forall>r \<in> set (plan_routes plan). length (students r) \<le> 40)"
proof -
  from all_noise_plan obtain plan where
    p: "optimize_routes all_noise one_or_two_buses flat_rate (Some origin)
          [pupil 1 0, pupil 2 0] 3 [] = Inr plan"
    and r: "map (map student_id \<circ> students) (plan_routes plan) = [[1, 2]]"
    by (cases "optimize_routes all_noise one_or_two_buses flat_rate (Some origin)
          [pupil 1 0, pupil 2 0] 3 []") simp_all
  have c: "\<forall>r \<in> set (plan_routes plan). length (students r) \<le> 40"
    by (rule routes_within_capacity[OF one_or_two_buses_within p])
  show ?thesis
    by (rule exI[of _ plan]) (intro conjI p r c)
qed

subsection \<open>When no cluster can be routed\<close>

lemma route_cluster_nothing:
  assumes "cluster_solve solver service school api_key c = Inr res" "routes_of (Inr res) = []"
  shows "route_cluster solver service school api_key c s = Inr s"
  using assms
  by (cases s; cases res)
     (auto simp add: route_cluster_def cluster_solve_def routes_of_def Let_def)

lemma fold_route_cluster_nothing:
  assumes "\<forall>c \<in> set info. \<exists>res. cluster_solve solver service school api_key c = Inr res \<and>
      routes_of (Inr res) = []"
  shows "fold_err (route_cluster solver service school api_key) info s = Inr s"
  using assms
proof (induction info)
  case Nil
  then show ?case by simp
next
  case (Cons c info)
  then obtain res where "cluster_solve solver service school api_key c = Inr res"
    "routes_of (Inr res) = []" by auto
  then have "route_cluster solver service school api_key c s = Inr s"
    by (rule route_cluster_nothing)
  with Cons show ?case by simp
qed

lemma whole_town_only_clusters:
  "cluster_solve whole_town_only flat_rate origin [] 
     \<lparr>cluster_id = 0, cluster_size = 3, center = (0, 0), distance_from_school = 0,
        spread = 0, cluster_students = west_pupils\<rparr> = Inr NoSolution"
  "cluster_solve whole_town_only flat_rate origin []
     \<lparr>cluster_id = 1, cluster_size = 4, center = (0, 1),
        distance_from_school = 6371 * pi / 180,
        spread = 0, cluster_students = east_pupils\<rparr> = Inr NoSolution"
  by (simp_all add: cluster_solve_def solve_cvrp_def Let_def cvrp_model_def whole_town_only_def
      length_build_distance_matrix_fast west_pupils_def east_pupils_def)

lemma whole_town_plan:
  "error (pick_best (sweep whole_town_only flat_rate origin two_towns 3 [] 2) viz) = None \<and>
   total_buses (pick_best (sweep whole_town_only flat_rate origin two_towns 3 [] 2) viz) = 1 \<and>
   map (map student_id \<circ> students)
     (plan_routes (pick_best (sweep whole_town_only flat_rate origin two_towns 3 [] 2) viz)) =
     [[1, 2, 3, 4, 5, 6, 7]]"
  by (simp add: sweep_def try_fleet_def solve_cvrp_def cvrp_model_def Let_def
      length_build_distance_matrix_fast whole_town_only_def upt_conv_Cons
      extract_vehicle_def item_def item2_matrix estimate_travel_time_def
      get_real_route_geometry_for_segments_def get_route_from_onemap_def flat_rate_def
      py_round_def py_round_digits_def point_of_def segment.defs enriched_segment.defs
      two_towns_def west_pupils_def east_pupils_def pick_best_def plan_of_def)

text \<open>
  C9. In the far-apart branch, when the solve of every cluster ends without routes (an
  error dictionary, or an empty route list), \<open>all_routes\<close> stays empty, the guard of
  line 558 fails, and \<open>optimize_routes\<close> returns what the sweep over the full student list
  returns: no error is reported at that point. The witness is a solver that only finds
  a tour for the whole town: both cluster solves fail, and the sweep yields a plan.
\<close>

theorem far_apart_falls_through:
  fixes school :: location and dbscan :: clustering and studs :: "student list"
  defines "a \<equiv> analyze_student_clusters dbscan studs school"
  assumes far: "strategy a = FAR_APART"
    and assigned: "assigned_clusters a = Inr info"
    and unserved: "\<forall>c \<in> set info.
      \<exists>res. cluster_solve solver service school api_key c = Inr res \<and> routes_of (Inr res) = []"
  shows "\<exists>rb. recommended_buses a = Some rb \<and>
    optimize_routes dbscan solver service (Some school) studs max_buses api_key =
      Inr (pick_best (sweep solver service school studs max_buses api_key rb) (payload_of a))"
proof -
  from far have n2: "\<not> length studs < 2"
    by (auto simp add: strategy_def a_def analyze_student_clusters_def no_keys_def
        split: if_splits)
  then have ne: "studs \<noteq> []" by auto
  from n2 obtain rb where rb: "recommended_buses a = Some rb"
    by (simp add: a_def analyze_student_clusters_def Let_def case_prod_beta)
  from far have test:
    "(case avg_cluster_distance a of None \<Rightarrow> 0 | Some d \<Rightarrow> d) > 7 \<and>
     (case n_clusters a of None \<Rightarrow> 0 | Some n \<Rightarrow> n) > 1"
    by (simp add: strategy_def split: if_splits)
  have fold: "fold_err (route_cluster solver service school api_key) info ([], 0, 0) = Inr ([], 0, 0)"
    by (rule fold_route_cluster_nothing[OF unserved])
  have "optimize_routes dbscan solver service (Some school) studs max_buses api_key =
      Inr (pick_best (sweep solver service school studs max_buses api_key rb) (payload_of a))"
    using ne rb test assigned fold
    by (simp add: optimize_routes_def Let_def payload_of_def assigned_clusters_def
        flip: a_def)
  with rb show ?thesis by blast
qed

theorem far_apart_falls_through_witness:
  "\<exists>plan. optimize_routes by_town whole_town_only flat_rate (Some origin) two_towns 3 [] = Inr plan \<and>
     error plan = None \<and> total_buses plan = 1 \<and>
     map (map student_id \<circ> students) (plan_routes plan) = [[1, 2, 3, 4, 5, 6, 7]]"
proof -
  let ?a = "analyze_student_clusters by_town two_towns origin"
  have far: "strategy ?a = FAR_APART"
    using one_degree_far by (simp add: two_towns_analysis strategy_def)
  have unserved: "\<forall>c \<in> set
      [\<lparr>cluster_id = 0, cluster_size = 3, center = (0, 0), distance_from_school = 0,
         spread = 0, cluster_students = west_pupils\<rparr>,
       \<lparr>cluster_id = 1, cluster_size = 4, center = (0, 1),
         distance_from_school = 6371 * pi / 180,
         spread = 0, cluster_students = east_pupils\<rparr>].
      \<exists>res. cluster_solve whole_town_only flat_rate origin [] c = Inr res \<and>
        routes_of (Inr res) = []"
    by (simp add: whole_town_only_clusters routes_of_def)
  from far_apart_falls_through[OF far two_towns_assigned unserved, of 3]
  obtain rb where rb: "recommended_buses ?a = Some rb" and
    opt: "optimize_routes by_town whole_town_only flat_rate (Some origin) two_towns 3 [] =
      Inr (pick_best (sweep whole_town_only flat_rate origin two_towns 3 [] rb) (payload_of ?a))"
    by blast
  from rb have "rb = 2" by (simp add: two_towns_analysis)
  with opt whole_town_plan[of "payload_of ?a"] show ?thesis by simp
qed

subsection \<open>Coverage\<close>

lemma covers_once_iff:
  "covers_once model solution =
     ((\<forall>v < num_vehicles model.
         solution v \<noteq> [] \<and> last (solution v) = depot model \<and>
         depot model \<notin> set (butlast (solution v))) \<and>
      mset (concat (map (\<lambda>v. butlast (solution v)) [0..<num_vehicles model])) =
        mset [1..<length (distance_matrix model)])"
  by (auto simp add: covers_once_def)

lemma extract_route_interior:
  assumes "node \<le> length studs" and "\<forall>n \<in> set interior. 0 < n \<and> n \<le> length studs"
  shows "\<exists>d' t' segs'.
    extract_route school studs (build_distance_matrix_fast school studs) node (interior @ [0])
      (d, t, rs, segs) = Inr (d', t', rs @ map (student_at studs) interior, segs')"
  using assms
proof (induction interior arbitrary: node d t rs segs)
  case Nil
  show ?case
  proof (cases "node = 0")
    case True
    then show ?thesis by simp
  next
    case False
    with Nil.prems(1) have "item studs (node - Suc 0) = Inr (studs ! (node - Suc 0))"
      by (simp add: item_def)
    with False Nil.prems(1) show ?thesis
      by (simp add: item2_matrix Let_def)
  qed
next
  case (Cons n interior)
  from Cons.prems(2) have n: "0 < n" "n \<le> length studs" by simp_all
  then have i1: "item studs (n - 1) = Inr (studs ! (n - 1))"
    by (simp add: item_def)
  have i2: "item2 (build_distance_matrix_fast school studs) node n =
      Inr (build_distance_matrix_fast school studs ! node ! n)"
    using Cons.prems(1) n(2) by (rule item2_matrix)
  have i3: "node \<noteq> 0 \<Longrightarrow> item studs (node - 1) = Inr (studs ! (node - 1))"
    using Cons.prems(1) by (simp add: item_def)
  from Cons.prems(2) have rest: "\<forall>n \<in> set interior. 0 < n \<and> n \<le> length studs" by simp
  have i1': "item studs (n - Suc 0) = Inr (studs ! (n - Suc 0))"
    using i1 by simp
  let ?m = "build_distance_matrix_fast school studs"
  let ?km = "real_of_int (?m ! node ! n) / 1000"
  have "\<exists>from_point. extract_route school studs ?m node ((n # interior) @ [0]) (d, t, rs, segs) =
      extract_route school studs ?m n (interior @ [0])
        (d + ?km, t + (estimate_travel_time ?km + 60), rs @ [studs ! (n - Suc 0)],
         segs @ [\<lparr>seg_from = from_point, seg_to = point_of (studs ! (n - Suc 0)),
                  seg_student = name (studs ! (n - Suc 0))\<rparr>])"
  proof (cases "node = 0")
    case True
    then show ?thesis
      using n(1) by (intro exI[of _ "point_of school"]) (simp add: i1' i2[unfolded True] Let_def)
  next
    case False
    have i3': "item studs (node - Suc 0) = Inr (studs ! (node - Suc 0))"
      using i3[OF False] by simp
    show ?thesis
      using n(1) False
      by (intro exI[of _ "point_of (studs ! (node - Suc 0))"]) (simp add: i1' i2 i3' Let_def)
  qed
  then obtain from_point where step:
    "extract_route school studs ?m node ((n # interior) @ [0]) (d, t, rs, segs) =
      extract_route school studs ?m n (interior @ [0])
        (d + ?km, t + (estimate_travel_time ?km + 60), rs @ [studs ! (n - Suc 0)],
         segs @ [\<lparr>seg_from = from_point, seg_to = point_of (studs ! (n - Suc 0)),
                  seg_student = name (studs ! (n - Suc 0))\<rparr>])"
    by blast
  from Cons.IH[OF n(2) rest, of "d + ?km" "t + (estimate_travel_time ?km + 60)"
      "rs @ [studs ! (n - Suc 0)]"
      "segs @ [\<lparr>seg_from = from_point, seg_to = point_of (studs ! (n - Suc 0)),
                  seg_student = name (studs ! (n - Suc 0))\<rparr>]"]
  show ?case
    unfolding step by (simp add: student_at_def)
qed

lemma extract_vehicle_covers:
  assumes "solution v = interior @ [0]" and "\<forall>n \<in> set interior. 0 < n \<and> n \<le> length studs"
  shows "\<exists>rs' td' m'.
    extract_vehicle service api_key school studs (build_distance_matrix_fast school studs)
      solution v (rs, td, m) = Inr (rs', td', m') \<and>
    concat (map students rs') = concat (map students rs) @ map (student_at studs) interior"
proof -
  from extract_route_interior[OF le0 assms(2), of school 0 0 "[]" "[]"]
  obtain d' t' segs' where
    "extract_route school studs (build_distance_matrix_fast school studs) 0 (solution v)
       (0, 0, [], []) = Inr (d', t', map (student_at studs) interior, segs')"
    unfolding assms(1) by auto
  then show ?thesis
    by (cases "interior = []") (simp_all add: extract_vehicle_def Let_def)
qed

lemma fold_vehicles_covers:
  assumes "\<forall>v \<in> set vs. \<exists>interior. solution v = interior @ [0] \<and>
      (\<forall>n \<in> set interior. 0 < n \<and> n \<le> length studs)"
  shows "\<exists>rs' td' m'.
    fold_err (extract_vehicle service api_key school studs (build_distance_matrix_fast school studs)
      solution) vs (rs, td, m) = Inr (rs', td', m') \<and>
    concat (map students rs') =
      concat (map students rs) @
        map (student_at studs) (concat (map (\<lambda>v. butlast (solution v)) vs))"
  using assms
proof (induction vs arbitrary: rs td m)
  case Nil
  then show ?case by simp
next
  case (Cons v vs)
  from Cons.prems obtain interior where
    i: "solution v = interior @ [0]" "\<forall>n \<in> set interior. 0 < n \<and> n \<le> length studs"
    by auto
  from extract_vehicle_covers[of solution v interior studs service api_key school rs td m, OF i]
  obtain rs1 td1 m1 where
    s1: "extract_vehicle service api_key school studs (build_distance_matrix_fast school studs)
      solution v (rs, td, m) = Inr (rs1, td1, m1)" and
    c1: "concat (map students rs1) = concat (map students rs) @ map (student_at studs) interior"
    by blast
  from Cons.prems have "\<forall>v \<in> set vs. \<exists>interior. solution v = interior @ [0] \<and>
      (\<forall>n \<in> set interior. 0 < n \<and> n \<le> length studs)" by simp
  from Cons.IH[OF this, of rs1 td1 m1] obtain rs' td' m' where
    "fold_err (extract_vehicle service api_key school studs
        (build_distance_matrix_fast school studs) solution) vs (rs1, td1, m1) = Inr (rs', td', m')"
    "concat (map students rs') = concat (map students rs1) @
        map (student_at studs) (concat (map (\<lambda>v. butlast (solution v)) vs))"
    by blast
  with s1 c1 i(1) show ?case by simp
qed

lemma students_by_node:
  "map (student_at studs) [1..<Suc (length studs)] = studs"
proof -
  have "[1..<Suc (length studs)] = map Suc [0..<length studs]"
    by (simp add: map_Suc_upt)
  then have "map (student_at studs) [1..<Suc (length studs)] = map (nth studs) [0..<length studs]"
    by (simp add: student_at_def comp_def)
  then show ?thesis by (simp add: map_nth)
qed

lemma solve_cvrp_covers:
  assumes "covers_once (cvrp_model (build_distance_matrix_fast school studs) k) solution"
    and "studs \<noteq> []"
    and "solver (cvrp_model (build_distance_matrix_fast school studs) k) = Some solution"
  shows "\<exists>res. solve_cvrp solver service school studs k api_key = Inr (Solved res) \<and>
    mset (concat (map students (routes res))) = mset studs"
proof -
  let ?m = "build_distance_matrix_fast school studs"
  let ?nodes = "concat (map (\<lambda>v. butlast (solution v)) [0..<k])"
  from assms(1) have all: "mset ?nodes = mset [1..<Suc (length studs)]"
    by (simp add: covers_once_iff cvrp_model_def length_build_distance_matrix_fast)
  have paths: "\<forall>v \<in> set [0..<k]. \<exists>interior. solution v = interior @ [0] \<and>
      (\<forall>n \<in> set interior. 0 < n \<and> n \<le> length studs)"
  proof
    fix v assume v: "v \<in> set [0..<k]"
    with assms(1) have p: "solution v \<noteq> []" "last (solution v) = 0"
      by (simp_all add: covers_once_iff cvrp_model_def)
    then have "solution v = butlast (solution v) @ [0]"
      by (metis append_butlast_last_id)
    moreover have "0 < n \<and> n \<le> length studs" if "n \<in> set (butlast (solution v))" for n
    proof -
      from that v have "n \<in> set ?nodes" by auto
      then have "n \<in># mset ?nodes" by simp
      then have "n \<in> set [1..<Suc (length studs)]" unfolding all by simp
      then show ?thesis by auto
    qed
    ultimately show "\<exists>interior. solution v = interior @ [0] \<and>
      (\<forall>n \<in> set interior. 0 < n \<and> n \<le> length studs)" by blast
  qed
  from fold_vehicles_covers[OF paths, of service api_key school "[]" 0 0]
  obtain rs' td' m' where
    f: "fold_err (extract_vehicle service api_key school studs ?m solution) [0..<k] ([], 0, 0) =
      Inr (rs', td', m')" and
    c: "concat (map students rs') = map (student_at studs) ?nodes"
    by auto
  have "mset (concat (map students rs')) = image_mset (student_at studs) (mset ?nodes)"
    unfolding c by simp
  also have "\<dots> = mset (map (student_at studs) [1..<Suc (length studs)])"
    unfolding all by simp
  also have "\<dots> = mset studs"
    by (simp only: students_by_node)
  finally have "mset (concat (map students rs')) = mset studs" .
  with f assms(2,3) show ?thesis
    by (simp add: solve_cvrp_def Let_def)
qed

lemma mset_filter_disjoint:
  "(\<And>z. \<not> (P z \<and> Q z)) \<Longrightarrow>
   mset (filter (\<lambda>z. P z \<or> Q z) zs) = mset (filter P zs) + mset (filter Q zs)"
  by (induction zs) auto

lemma mset_filter_split:
  "(\<And>z. z \<in> set zs \<Longrightarrow> P z \<noteq> Q z) \<Longrightarrow>
   mset (filter P zs) + mset (filter Q zs) = mset zs"
  by (induction zs) auto

lemma mset_members_ids:
  "distinct ids \<Longrightarrow>
   mset (concat (map (members labels xs) ids)) =
     mset (map snd (filter (\<lambda>(l, x). l \<in> set ids) (zip labels xs)))"
proof (induction ids)
  case Nil
  then show ?case by simp
next
  case (Cons a ids)
  then have a: "a \<notin> set ids" and d: "distinct ids" by simp_all
  have e: "(\<lambda>(l, x). l \<in> set (a # ids)) =
      (\<lambda>z. (case z of (l, x) \<Rightarrow> l = a) \<or> (case z of (l, x) \<Rightarrow> l \<in> set ids))"
    by auto
  have "mset (filter (\<lambda>(l, x). l \<in> set (a # ids)) (zip labels xs)) =
      mset (filter (\<lambda>(l, x). l = a) (zip labels xs)) +
      mset (filter (\<lambda>(l, x). l \<in> set ids) (zip labels xs))"
    unfolding e by (rule mset_filter_disjoint) (use a in auto)
  then have "mset (map snd (filter (\<lambda>(l, x). l \<in> set (a # ids)) (zip labels xs))) =
      mset (members labels xs a) +
      mset (map snd (filter (\<lambda>(l, x). l \<in> set ids) (zip labels xs)))"
    unfolding members_def by (metis image_mset_union mset_map)
  with Cons.IH[OF d] show ?case by simp
qed

lemma mset_clusters_and_noise:
  assumes "length labels = length xs"
  shows "mset (concat (map (members labels xs) (cluster_ids labels))) +
      mset (members labels xs (- 1)) = mset xs"
proof -
  have d: "distinct (cluster_ids labels)" by (simp add: cluster_ids_def)
  have "mset (filter (\<lambda>(l, x). l \<in> set (cluster_ids labels)) (zip labels xs)) +
      mset (filter (\<lambda>(l, x). l = - 1) (zip labels xs)) = mset (zip labels xs)"
  proof (rule mset_filter_split)
    fix z assume "z \<in> set (zip labels xs)"
    then have "(fst z, snd z) \<in> set (zip labels xs)" by simp
    then have "fst z \<in> set labels" by (rule set_zip_leftD)
    then show "(case z of (l, x) \<Rightarrow> l \<in> set (cluster_ids labels)) \<noteq>
        (case z of (l, x) \<Rightarrow> l = - 1)"
      by (cases z) (auto simp add: set_cluster_ids)
  qed
  then have "mset (map snd (filter (\<lambda>(l, x). l \<in> set (cluster_ids labels)) (zip labels xs))) +
      mset (map snd (filter (\<lambda>(l, x). l = - 1) (zip labels xs))) =
      mset (map snd (zip labels xs))"
    by (metis image_mset_union mset_map)
  then show ?thesis
    using assms by (simp add: mset_members_ids[OF d] members_def)
qed

lemma assign_isolated_mset:
  "assign_isolated isolated info = Inr info' \<Longrightarrow>
   mset (concat (map cluster_students info')) =
     mset (concat (map cluster_students info)) + mset isolated"
  unfolding assign_isolated_def
proof (induction isolated arbitrary: info)
  case Nil
  then show ?case by simp
next
  case (Cons s isolated)
  let ?i = "nearest_cluster s info"
  from Cons.prems obtain c where c: "item info ?i = Inr c" and
    rest: "fold_err (\<lambda>iso_student info.
                 (let nearest_cluster_idx = nearest_cluster iso_student info
                  in case item info nearest_cluster_idx of
                       Inl e \<Rightarrow> Inl e
                     | Inr c \<Rightarrow>
                         Inr (info[nearest_cluster_idx :=
                                c\<lparr>cluster_students := cluster_students c @ [iso_student]\<rparr>])))
       isolated (info[?i := c\<lparr>cluster_students := cluster_students c @ [s]\<rparr>]) = Inr info'"
    by (auto simp add: Let_def split: sum.splits)
  from c have i: "?i < length info" "c = info ! ?i"
    by (simp_all add: item_def split: if_splits)
  have upd: "mset (concat (map cluster_students (xs[k := (xs ! k)\<lparr>cluster_students :=
        cluster_students (xs ! k) @ [s]\<rparr>]))) = mset (concat (map cluster_students xs)) + {#s#}"
    if "k < length xs" for xs :: "cluster list" and k
    using that
  proof (induction xs arbitrary: k)
    case Nil
    then show ?case by simp
  next
    case (Cons x xs)
    then show ?case by (cases k) simp_all
  qed
  from Cons.IH[OF rest] upd[OF i(1)] i(2) show ?case by simp
qed

lemma analysis_partition:
  fixes studs :: "student list" and dbscan :: clustering and school :: "'a location_scheme"
  defines "a \<equiv> analyze_student_clusters dbscan studs school"
  assumes "\<not> length studs < 2"
  shows "mset (concat (map cluster_students (case cluster_info a of None \<Rightarrow> [] | Some cs \<Rightarrow> cs))) +
      mset (case isolated_students a of None \<Rightarrow> [] | Some ss \<Rightarrow> ss) = mset studs"
proof -
  let ?coords = "map (\<lambda>s. (latitude s, longitude s)) studs"
  let ?labels = "map (dbscan (3 / 100) 3 ?coords) [0..<length studs]"
  have len: "length ?labels = length studs" by simp
  have cs: "cluster_info a =
      Some (map (describe_cluster school studs ?coords ?labels) (cluster_ids ?labels))"
    and iso: "isolated_students a =
      Some (if count_list ?labels (- 1) > 0 then members ?labels studs (- 1) else [])"
    using assms(2) by (simp_all add: a_def analyze_student_clusters_def Let_def case_prod_beta)
  have m: "map cluster_students
      (map (describe_cluster school studs ?coords ?labels) (cluster_ids ?labels)) =
      map (members ?labels studs) (cluster_ids ?labels)"
    by (simp add: describe_cluster_def Let_def comp_def)
  have n: "(if count_list ?labels (- 1) > 0 then members ?labels studs (- 1) else []) =
      members ?labels studs (- 1)"
    using length_members[OF len, of "- 1"] by auto
  show ?thesis
    unfolding cs iso option.case m n by (rule mset_clusters_and_noise[OF len])
qed

lemma solve_cvrp_Solved_covers:
  assumes contract: "\<And>solution.
      solver (cvrp_model (build_distance_matrix_fast school studs) k) = Some solution \<Longrightarrow>
      covers_once (cvrp_model (build_distance_matrix_fast school studs) k) solution"
    and "solve_cvrp solver service school studs k api_key = Inr (Solved res)"
  shows "mset (concat (map students (routes res))) = mset studs"
proof -
  from assms(2) obtain solution where
    ne: "studs \<noteq> []" and
    s: "solver (cvrp_model (build_distance_matrix_fast school studs) k) = Some solution"
    by (auto simp add: solve_cvrp_def Let_def split: if_splits option.splits)
  from solve_cvrp_covers[of school studs k solution solver service api_key,
      OF contract[OF s] ne s] assms(2)
  show ?thesis by auto
qed

lemma route_cluster_covers:
  assumes contract: "\<And>(studs' :: student list) k solution.
      solver (cvrp_model (build_distance_matrix_fast school studs') k) = Some solution \<Longrightarrow>
      covers_once (cvrp_model (build_distance_matrix_fast school studs') k) solution"
    and served: "routes_of (cluster_solve solver service school api_key c) \<noteq> []"
    and step: "route_cluster solver service school api_key c (rs, td, m) = Inr (rs', td', m')"
  shows "mset (concat (map students rs')) =
      mset (concat (map students rs)) + mset (cluster_students c)"
proof -
  let ?k = "max 1 (ceil_div (length (cluster_students c)) 40)"
  from served obtain res where
    res: "solve_cvrp solver service school (cluster_students c) ?k api_key = Inr (Solved res)"
    and ne: "routes res \<noteq> []"
    by (auto simp add: routes_of_def cluster_solve_def split: sum.splits cvrp_result.splits)
  have "mset (concat (map students (routes res))) = mset (cluster_students c)"
    by (rule solve_cvrp_Solved_covers[OF contract res])
  moreover from step res ne have "rs' = rs @ routes res"
    by (simp add: route_cluster_def Let_def)
  ultimately show ?thesis by simp
qed

lemma fold_route_cluster_covers:
  assumes contract: "\<And>(studs' :: student list) k solution.
      solver (cvrp_model (build_distance_matrix_fast school studs') k) = Some solution \<Longrightarrow>
      covers_once (cvrp_model (build_distance_matrix_fast school studs') k) solution"
    and served: "\<forall>c \<in> set info. routes_of (cluster_solve solver service school api_key c) \<noteq> []"
    and run: "fold_err (route_cluster solver service school api_key) info (rs, td, m) =
      Inr (rs', td', m')"
  shows "mset (concat (map students rs')) =
      mset (concat (map students rs)) + mset (concat (map cluster_students info))"
  using served run
proof (induction info arbitrary: rs td m)
  case Nil
  then show ?case by simp
next
  case (Cons c info)
  from Cons.prems(2) obtain rs1 td1 m1 where
    s1: "route_cluster solver service school api_key c (rs, td, m) = Inr (rs1, td1, m1)" and
    r: "fold_err (route_cluster solver service school api_key) info (rs1, td1, m1) =
      Inr (rs', td', m')"
    by (auto split: sum.splits)
  from Cons.prems(1) have c: "routes_of (cluster_solve solver service school api_key c) \<noteq> []"
    and rest: "\<forall>c \<in> set info. routes_of (cluster_solve solver service school api_key c) \<noteq> []"
    by simp_all
  have "mset (concat (map students rs1)) = mset (concat (map students rs)) + mset (cluster_students c)"
    using contract c s1 by (rule route_cluster_covers)
  with Cons.IH[OF rest r] show ?case by simp
qed

lemma pick_best_candidate:
  assumes "error (pick_best results viz) = None"
  shows "\<exists>c \<in> set results. plan_routes (pick_best results viz) = cand_routes c"
proof (cases "results = []")
  case True
  with assms show ?thesis by (simp add: pick_best_def)
next
  case False
  then have "arg_min_list max_time results \<in> set results"
    by (rule arg_min_list_in)
  moreover have "c \<in> set results"
    if "find P (sort_key cand_num_buses results) = Some c" for P c
    using find_Some_set[OF that] by simp
  ultimately show ?thesis
    using False
    by (auto simp add: pick_best_def Let_def plan_of_def split: if_splits option.splits)
qed

lemma one_tour_covers:
  assumes "one_tour (cvrp_model matrix k) = Some solution"
  shows "covers_once (cvrp_model matrix k) solution"
proof -
  from assms have k: "k \<noteq> 0" and
    s: "solution = (\<lambda>v. if v = 0 then [1..<length matrix] @ [0] else [0])"
    by (auto simp add: one_tour_def cvrp_model_def split: if_splits)
  from k have upt: "[0..<k] = 0 # [1..<k]"
    by (simp add: upt_conv_Cons)
  have rest: "concat (map (\<lambda>v. butlast (solution v)) [1..<k]) = []"
    by (simp add: s)
  show ?thesis
    unfolding covers_once_iff
    by (simp add: cvrp_model_def upt rest del: upt_Suc) (simp add: s)
qed

text \<open>
  C2, as amended. Let the search keep to its contract for every student list and fleet size
  that it is given for this school: the tours of a solution that it reports visit every
  student node exactly once (\<open>covers_once\<close>). Let the call return a plan without an
  \<open>error\<close>, and, when the far-apart strategy is taken, let the solve of every cluster
  (after the isolated students were attached) return at least one route. Then the students
  on the routes of the plan are the input students, each as often as in the input; so with
  distinct ids in the input no id is on two routes or twice on one route. Nothing is said of
  a far-apart run in which the solve of some cluster returns no route.
\<close>

theorem coverage_when_solves_succeed:
  fixes school :: location and dbscan :: clustering and studs :: "student list"
  defines "a \<equiv> analyze_student_clusters dbscan studs school"
  assumes contract: "\<And>(studs' :: student list) k solution.
      solver (cvrp_model (build_distance_matrix_fast school studs') k) = Some solution \<Longrightarrow>
      covers_once (cvrp_model (build_distance_matrix_fast school studs') k) solution"
    and run: "optimize_routes dbscan solver service (Some school) studs max_buses api_key = Inr plan"
    and ok: "error plan = None"
    and served: "\<And>info c. strategy a = FAR_APART \<Longrightarrow> assigned_clusters a = Inr info \<Longrightarrow>
      c \<in> set info \<Longrightarrow> routes_of (cluster_solve solver service school api_key c) \<noteq> []"
  shows "mset (concat (map students (plan_routes plan))) = mset studs \<and>
    (distinct (map student_id studs) \<longrightarrow>
       distinct (map student_id (concat (map students (plan_routes plan)))))"
proof -
  from run ok have ne: "studs \<noteq> []"
    by (auto simp add: optimize_routes_def split: if_splits)
  with run obtain rb where rb: "recommended_buses a = Some rb"
    by (auto simp add: optimize_routes_def Let_def a_def split: option.splits)
  then have n2: "\<not> length studs < 2"
    by (auto simp add: a_def analyze_student_clusters_def no_keys_def split: if_splits)
  let ?swept = "pick_best (sweep solver service school studs max_buses api_key rb) (payload_of a)"
  have swept: "mset (concat (map students (plan_routes plan))) = mset studs" if "plan = ?swept"
  proof -
    from ok that pick_best_candidate obtain c where
      c: "c \<in> set (sweep solver service school studs max_buses api_key rb)"
      "plan_routes plan = cand_routes c"
      by blast
    from sweep_candidates[OF c(1)] obtain k res where
      "solve_cvrp solver service school studs k api_key = Inr (Solved res)"
      "cand_routes c = routes res"
      unfolding sweep_candidate_def by auto
    with solve_cvrp_Solved_covers[where solver = solver and school = school and studs = studs
        and k = k and service = service and api_key = api_key and res = res] contract c(2)
    show ?thesis by simp
  qed
  have cover: "mset (concat (map students (plan_routes plan))) = mset studs"
  proof (cases "strategy a = FAR_APART")
    case False
    then have "\<not> ((case avg_cluster_distance a of None \<Rightarrow> 0 | Some d \<Rightarrow> d) > 7 \<and>
        (case n_clusters a of None \<Rightarrow> 0 | Some n \<Rightarrow> n) > 1)"
      by (auto simp add: strategy_def split: if_splits)
    with run ne rb have "plan = ?swept"
      by (auto simp add: optimize_routes_def Let_def payload_of_def simp flip: a_def
          split: if_splits)
    then show ?thesis by (rule swept)
  next
    case True
    then have test: "(case avg_cluster_distance a of None \<Rightarrow> 0 | Some d \<Rightarrow> d) > 7 \<and>
        (case n_clusters a of None \<Rightarrow> 0 | Some n \<Rightarrow> n) > 1"
      by (simp add: strategy_def split: if_splits)
    from run ne rb test obtain info all_routes td m where
      info: "assigned_clusters a = Inr info" and
      fold: "fold_err (route_cluster solver service school api_key) info ([], 0, 0) =
        Inr (all_routes, td, m)" and
      plan: "if all_routes \<noteq> [] then plan_routes plan = all_routes else plan = ?swept"
      by (auto simp add: optimize_routes_def Let_def payload_of_def assigned_clusters_def
          simp flip: a_def split: sum.splits if_splits)
    have "\<forall>c \<in> set info. routes_of (cluster_solve solver service school api_key c) \<noteq> []"
      using served[OF True info] by blast
    from fold_route_cluster_covers[OF contract this fold]
    have "mset (concat (map students all_routes)) = mset (concat (map cluster_students info))"
      by simp
    also have "\<dots> = mset studs"
      using assign_isolated_mset[OF info[unfolded assigned_clusters_def]]
        analysis_partition[OF n2, of dbscan school]
      by (simp add: a_def)
    finally have all: "mset (concat (map students all_routes)) = mset studs" .
    show ?thesis
    proof (cases "all_routes = []")
      case True
      with plan have "plan = ?swept" by simp
      then show ?thesis by (rule swept)
    next
      case False
      with plan all show ?thesis by simp
    qed
  qed
  have "distinct (map student_id (concat (map students (plan_routes plan))))"
    if "distinct (map student_id studs)"
  proof -
    from cover have "mset (map student_id (concat (map students (plan_routes plan)))) =
        mset (map student_id studs)"
      by (metis mset_map)
    with that show ?thesis
      by (metis mset_eq_imp_distinct_iff)
  qed
  with cover show ?thesis by simp
qed

theorem coverage_when_solves_succeed_witness:
  "\<exists>plan. optimize_routes by_town one_tour flat_rate (Some origin) two_towns 3 [] = Inr plan \<and>
     error plan = None \<and>
     map (map student_id \<circ> students) (plan_routes plan) = [[1, 2, 3], [4, 5, 6, 7]] \<and>
     mset (concat (map students (plan_routes plan))) = mset two_towns \<and>
     distinct (map student_id (concat (map students (plan_routes plan))))"
proof -
  let ?a = "analyze_student_clusters by_town two_towns origin"
  have far: "1260 < 6371 * pi" using pi_ge_3 by simp
  have west: "solve_cvrp one_tour flat_rate origin west_pupils (Suc 0) [] =
      Inr (Solved
        \<lparr>routes =
           [\<lparr>students = west_pupils, distance_km = 4, time_seconds = 660, time_minutes = 11,
              student_count = 3,
              segments = replicate 3
                  \<lparr>seg_from = (0, 0), seg_to = (0, 0), seg_student = ''Pupil'', geometry = [],
                    distance = 1, time = 120\<rparr> @
                [\<lparr>seg_from = (0, 0), seg_to = (0, 0), seg_student = ''Return to School'',
                   geometry = [], distance = 1, time = 120\<rparr>]\<rparr>],
         total_distance = 4, max_route_time = 660, num_buses = 1\<rparr>)"
    by (simp add: solve_cvrp_def cvrp_model_def Let_def length_build_distance_matrix_fast
        one_tour_def upt_conv_Cons extract_vehicle_def item_def item2_matrix
        estimate_travel_time_def get_real_route_geometry_for_segments_def
        get_route_from_onemap_def flat_rate_def py_round_def py_round_digits_def point_of_def
        segment.defs enriched_segment.defs west_pupils_def numeral_3_eq_3)
  have east: "solve_cvrp one_tour flat_rate origin east_pupils (Suc 0) [] =
      Inr (Solved
        \<lparr>routes =
           [\<lparr>students = east_pupils, distance_km = 5, time_seconds = 840, time_minutes = 14,
              student_count = 4,
              segments =
                [\<lparr>seg_from = (0, 0), seg_to = (0, 1), seg_student = ''Pupil'', geometry = [],
                    distance = 1, time = 120\<rparr>] @
                replicate 3
                  \<lparr>seg_from = (0, 1), seg_to = (0, 1), seg_student = ''Pupil'', geometry = [],
                    distance = 1, time = 120\<rparr> @
                [\<lparr>seg_from = (0, 1), seg_to = (0, 0), seg_student = ''Return to School'',
                   geometry = [], distance = 1, time = 120\<rparr>]\<rparr>],
         total_distance = 5, max_route_time = 840, num_buses = 1\<rparr>)"
    by (simp add: solve_cvrp_def cvrp_model_def Let_def length_build_distance_matrix_fast
        one_tour_def upt_conv_Cons extract_vehicle_def item_def item2_matrix
        estimate_travel_time_def get_real_route_geometry_for_segments_def
        get_route_from_onemap_def flat_rate_def py_round_def py_round_digits_def point_of_def
        segment.defs enriched_segment.defs east_pupils_def numeral_3_eq_3)
  have three: "max (Suc 0) (ceil_div (length west_pupils) 40) = Suc 0"
    "max (Suc 0) (ceil_div (length east_pupils) 40) = Suc 0"
    by (simp_all add: west_pupils_def east_pupils_def)
  have ne: "two_towns \<noteq> []" by (simp add: two_towns_def west_pupils_def)
  define plan where "plan =
      \<lparr>plan_routes =
         [\<lparr>students = west_pupils, distance_km = 4, time_seconds = 660, time_minutes = 11,
            student_count = 3,
            segments = replicate 3
                \<lparr>seg_from = (0, 0), seg_to = (0, 0), seg_student = ''Pupil'', geometry = [],
                  distance = 1, time = 120\<rparr> @
              [\<lparr>seg_from = (0, 0), seg_to = (0, 0), seg_student = ''Return to School'',
                 geometry = [], distance = 1, time = 120\<rparr>]\<rparr>,
          \<lparr>students = east_pupils, distance_km = 5, time_seconds = 840, time_minutes = 14,
            student_count = 4,
            segments =
              [\<lparr>seg_from = (0, 0), seg_to = (0, 1), seg_student = ''Pupil'', geometry = [],
                  distance = 1, time = 120\<rparr>] @
              replicate 3
                \<lparr>seg_from = (0, 1), seg_to = (0, 1), seg_student = ''Pupil'', geometry = [],
                  distance = 1, time = 120\<rparr> @
              [\<lparr>seg_from = (0, 1), seg_to = (0, 0), seg_student = ''Return to School'',
                 geometry = [], distance = 1, time = 120\<rparr>]\<rparr>],
       total_buses = 2, error = None,
       max_route_time_minutes = Some 14, total_distance_km = Some 9,
       optimization_note = Some (ClusterBased 2 2 (6371 * pi / 180)),
       cluster_visualization = Some (payload_of ?a)\<rparr>"
  have run: "optimize_routes by_town one_tour flat_rate (Some origin) two_towns 3 [] = Inr plan"
    using far ne
    by (simp add: optimize_routes_def two_towns_analysis assign_isolated_def route_cluster_def
        Let_def three west east payload_of_def py_round_def py_round_digits_def plan_def)
  have ok: "error plan = None"
    by (simp add: plan_def)
  have rs: "map (map student_id \<circ> students) (plan_routes plan) = [[1, 2, 3], [4, 5, 6, 7]]"
    by (simp add: plan_def west_pupils_def east_pupils_def pupil_def)
  have served: "routes_of (cluster_solve one_tour flat_rate origin [] c) \<noteq> []"
    if "assigned_clusters ?a = Inr info" "c \<in> set info" for info c
    using that
    by (auto simp add: two_towns_assigned cluster_solve_def three west east routes_of_def)
  have ids: "distinct (map student_id two_towns)"
    by (simp add: two_towns_def west_pupils_def east_pupils_def pupil_def)
  from coverage_when_solves_succeed[where solver = one_tour and school = origin
      and dbscan = by_town and studs = two_towns and service = flat_rate and max_buses = 3
      and api_key = "[]" and plan = plan, OF one_tour_covers run ok served] ids run ok rs
  show ?thesis by simp
qed

text \<open>
  C2 as stated fails in the far-apart branch. Two towns one degree of longitude apart, three
  pupils in the west town (where the school is) and four in the east town; the search finds
  a tour for the west cluster and no solution for the east cluster. Line 551 skips the east
  cluster, \<open>all_routes\<close> is not empty, and the plan is returned without an error and
  without the four pupils of the east town.
\<close>

theorem far_cluster_dropped_counterexample:
  "map_sum id error
     (optimize_routes by_town west_only flat_rate (Some origin) two_towns 3 []) = Inr None \<and>
   map_sum id total_buses
     (optimize_routes by_town west_only flat_rate (Some origin) two_towns 3 []) = Inr 1 \<and>
   map_sum id (map (map student_id \<circ> students) \<circ> plan_routes)
     (optimize_routes by_town west_only flat_rate (Some origin) two_towns 3 []) =
     Inr [[1, 2, 3]] \<and>
   map student_id two_towns = [1, 2, 3, 4, 5, 6, 7]"
proof -
  have far: "1260 < 6371 * pi" using pi_ge_3 by simp
  have west: "solve_cvrp west_only flat_rate origin west_pupils (Suc 0) [] =
      Inr (Solved
        \<lparr>routes =
           [\<lparr>students = west_pupils, distance_km = 4, time_seconds = 660, time_minutes = 11,
              student_count = 3,
              segments = replicate 3
                  \<lparr>seg_from = (0, 0), seg_to = (0, 0), seg_student = ''Pupil'', geometry = [],
                    distance = 1, time = 120\<rparr> @
                [\<lparr>seg_from = (0, 0), seg_to = (0, 0), seg_student = ''Return to School'',
                   geometry = [], distance = 1, time = 120\<rparr>]\<rparr>],
         total_distance = 4, max_route_time = 660, num_buses = 1\<rparr>)"
    by (simp add: solve_cvrp_def cvrp_model_def Let_def length_build_distance_matrix_fast
        west_only_def upt_conv_Cons extract_vehicle_def item_def item2_matrix
        estimate_travel_time_def get_real_route_geometry_for_segments_def
        get_route_from_onemap_def flat_rate_def py_round_def py_round_digits_def point_of_def
        segment.defs enriched_segment.defs west_pupils_def numeral_3_eq_3)
  have east: "solve_cvrp west_only flat_rate origin east_pupils (Suc 0) [] = Inr NoSolution"
    by (simp add: solve_cvrp_def cvrp_model_def Let_def length_build_distance_matrix_fast
        west_only_def east_pupils_def)
  have three: "max (Suc 0) (ceil_div (length west_pupils) 40) = Suc 0"
    "max (Suc 0) (ceil_div (length east_pupils) 40) = Suc 0"
    by (simp_all add: west_pupils_def east_pupils_def)
  have ne: "two_towns \<noteq> []" by (simp add: two_towns_def west_pupils_def)
  have "optimize_routes by_town west_only flat_rate (Some origin) two_towns 3 [] =
      Inr \<lparr>plan_routes =
             [\<lparr>students = west_pupils, distance_km = 4, time_seconds = 660, time_minutes = 11,
                student_count = 3,
                segments = replicate 3
                    \<lparr>seg_from = (0, 0), seg_to = (0, 0), seg_student = ''Pupil'', geometry = [],
                      distance = 1, time = 120\<rparr> @
                  [\<lparr>seg_from = (0, 0), seg_to = (0, 0), seg_student = ''Return to School'',
                     geometry = [], distance = 1, time = 120\<rparr>]\<rparr>],
           total_buses = 1, error = None,
           max_route_time_minutes = Some 11, total_distance_km = Some 4,
           optimization_note = Some (ClusterBased 1 2 (6371 * pi / 180)),
           cluster_visualization = Some (payload_of (analyze_student_clusters by_town two_towns origin))\<rparr>"
    using far ne
    by (simp add: optimize_routes_def two_towns_analysis assign_isolated_def route_cluster_def
        Let_def three west east payload_of_def py_round_def py_round_digits_def)
  then show ?thesis
    by (simp add: two_towns_def west_pupils_def east_pupils_def)
qed

end
